theory Spec2Isabelle
  imports Complex_Main "HOL-Library.Log_Nat"
begin

section \<open>JavaScript values used by the sale entry form\<close>

text \<open>
  A JavaScript number is an IEEE 754 double. It is represented by the rational number it
  denotes; \<open>None\<close> stands for NaN, and the two infinities are the rationals \<open>DBL_INF\<close>
  and \<open>- DBL_INF\<close>, where \<open>DBL_INF\<close> is 2 to the power 1024, the first power of two beyond
  the largest double. The two zeros are not told apart: the code never divides, and
  \<open>toFixed\<close> prints both as \<open>0.00\<close>. Every arithmetic operation rounds its exact result
  with \<open>to_double\<close>, to the nearest double, to the one with the even significand on a tie,
  and to an infinity from 2^1024 - 2^970 on.

  A string is a list of characters; white space is the ASCII white space. \<open>parseInt\<close> reads
  decimal digits, which is what it does with radix 10 and, for the strings a number input
  or a select of years and days delivers, without a radix.
\<close>

type_synonym number = "rat option"

subsection \<open>Rounding to a double\<close>

function pow2n :: "int \<Rightarrow> int" where
  "pow2n e = (if e \<le> 0 then 1 else if even e then (let h = pow2n (e div 2) in h * h)
              else 2 * pow2n (e - 1))"
  by pat_completeness auto
termination
  by (relation "measure nat") auto

declare pow2n.simps [simp del]

definition pow2 :: "int \<Rightarrow> rat" where
  \<comment> \<open>2 to the power \<open>e\<close>, for an exponent of either sign.\<close>
  "pow2 e = (if 0 \<le> e then of_int (pow2n e) else 1 / of_int (pow2n (- e)))"

definition scaled :: "rat \<Rightarrow> int \<Rightarrow> int \<times> int" where
  \<comment> \<open>Numerator and denominator of \<open>x / 2^p\<close>.\<close>
  "scaled x p = (let (n, d) = quotient_of x in if 0 \<le> p then (n, d * pow2n p) else (n * pow2n (- p), d))"

definition ilog2 :: "rat \<Rightarrow> int" where
  \<comment> \<open>For \<open>x > 0\<close>, the exponent \<open>e\<close> with \<open>2^e \<le> x < 2^(e + 1)\<close>.\<close>
  "ilog2 x =
     (let (n, d) = quotient_of x; k = bitlen n - bitlen d; (N, D) = scaled x k
      in if D \<le> N then k else k - 1)"

definition round_half_even :: "int \<Rightarrow> int \<Rightarrow> int" where
  \<comment> \<open>The integer nearest \<open>N / D\<close>, the even one on a tie (\<open>D > 0\<close>).\<close>
  "round_half_even N D =
     (let q = N div D; r = N mod D
      in if 2 * r < D then q else if D < 2 * r then q + 1 else if even q then q else q + 1)"

definition quantum :: "rat \<Rightarrow> int" where
  \<comment> \<open>The exponent of the last place of the doubles around \<open>a > 0\<close>: 53 significant bits,
      and 2^-1074 for the subnormal numbers.\<close>
  "quantum a = max (ilog2 a - 52) (- 1074)"

definition significand :: "rat \<Rightarrow> int" where
  "significand a = (let (N, D) = scaled a (quantum a) in round_half_even N D)"

definition DBL_INF :: rat where
  "DBL_INF = pow2 1024"

definition to_double :: "rat \<Rightarrow> rat" where
  "to_double x =
     (if x = 0 then 0
      else
        (let a = \<bar>x\<bar>;
             p = quantum a;
             m = significand a;
             r = (if 971 < p \<or> (p = 971 \<and> pow2n 53 \<le> m) then DBL_INF else of_int m * pow2 p)
         in if x < 0 then - r else r))"

subsection \<open>Arithmetic and comparison\<close>

definition is_inf :: "rat \<Rightarrow> bool" where
  "is_inf x = (DBL_INF \<le> \<bar>x\<bar>)"

definition js_inf :: "bool \<Rightarrow> rat" where
  "js_inf negative = (if negative then - DBL_INF else DBL_INF)"

definition js_add :: "number \<Rightarrow> number \<Rightarrow> number" where
  "js_add a b =
     (case a of None \<Rightarrow> None
      | Some x \<Rightarrow>
          (case b of None \<Rightarrow> None
           | Some y \<Rightarrow>
               if is_inf x \<and> is_inf y then (if (x < 0) = (y < 0) then Some (js_inf (x < 0)) else None)
               else if is_inf x then Some (js_inf (x < 0))
               else if is_inf y then Some (js_inf (y < 0))
               else Some (to_double (x + y))))"

definition js_sub :: "number \<Rightarrow> number \<Rightarrow> number" where
  "js_sub a b = js_add a (map_option uminus b)"

definition js_mul :: "number \<Rightarrow> number \<Rightarrow> number" where
  "js_mul a b =
     (case a of None \<Rightarrow> None
      | Some x \<Rightarrow>
          (case b of None \<Rightarrow> None
           | Some y \<Rightarrow>
               if is_inf x \<or> is_inf y then
                 (if x = 0 \<or> y = 0 then None else Some (js_inf ((x < 0) \<noteq> (y < 0))))
               else Some (to_double (x * y))))"

definition js_lt :: "number \<Rightarrow> number \<Rightarrow> bool" where
  "js_lt a b = (case a of None \<Rightarrow> False | Some x \<Rightarrow> (case b of None \<Rightarrow> False | Some y \<Rightarrow> x < y))"

definition js_ge :: "number \<Rightarrow> number \<Rightarrow> bool" where
  "js_ge a b = (case a of None \<Rightarrow> False | Some x \<Rightarrow> (case b of None \<Rightarrow> False | Some y \<Rightarrow> y \<le> x))"

definition isNaN :: "number \<Rightarrow> bool" where
  "isNaN a = (a = None)"

definition or_zero :: "number \<Rightarrow> number" where
  \<comment> \<open>\<open>v || 0\<close>: NaN, \<open>undefined\<close> and 0 are falsy.\<close>
  "or_zero a = (case a of None \<Rightarrow> Some 0 | Some x \<Rightarrow> Some x)"

subsection \<open>Strings and numbers\<close>

definition is_space :: "char \<Rightarrow> bool" where
  "is_space c = (let n = (of_char c :: int) in n = 9 \<or> n = 10 \<or> n = 11 \<or> n = 12 \<or> n = 13 \<or> n = 32)"

definition trimStart :: "string \<Rightarrow> string" where
  "trimStart s = dropWhile is_space s"

definition trim :: "string \<Rightarrow> string" where
  "trim s = rev (dropWhile is_space (rev (dropWhile is_space s)))"

definition is_digit :: "char \<Rightarrow> bool" where
  "is_digit c = (let n = (of_char c :: int) in 48 \<le> n \<and> n \<le> 57)"

definition digit_val :: "char \<Rightarrow> int" where
  "digit_val c = of_char c - 48"

definition digit_char :: "int \<Rightarrow> char" where
  "digit_char d = char_of (48 + d)"

definition digits_val :: "string \<Rightarrow> int" where
  "digits_val ds = foldl (\<lambda>a c. 10 * a + digit_val c) 0 ds"

function digits_of :: "int \<Rightarrow> string" where
  "digits_of n = (if n < 10 then [digit_char n] else digits_of (n div 10) @ [digit_char (n mod 10)])"
  by pat_completeness auto
termination
  by (relation "measure nat") auto

declare digits_of.simps [simp del]

fun split_sign :: "string \<Rightarrow> bool \<times> string" where
  "split_sign [] = (False, [])"
| "split_sign (c # cs) =
     (if c = CHR ''-'' then (True, cs) else if c = CHR ''+'' then (False, cs) else (False, c # cs))"

fun startsWith :: "string \<Rightarrow> string \<Rightarrow> bool" where
  "startsWith s [] = True"
| "startsWith [] (p # ps) = False"
| "startsWith (c # cs) (p # ps) = (c = p \<and> startsWith cs ps)"

definition parseInt :: "string \<Rightarrow> int option" where
  \<comment> \<open>\<open>parseInt(s, 10)\<close>; \<open>None\<close> is NaN.\<close>
  "parseInt s =
     (let (neg, u) = split_sign (trimStart s); ds = takeWhile is_digit u
      in if ds = [] then None
         else Some (if neg then - digits_val ds else digits_val ds))"

definition exponentPart :: "string \<Rightarrow> int" where
  "exponentPart r =
     (case r of
        [] \<Rightarrow> 0
      | c # cs \<Rightarrow>
          if c = CHR ''e'' \<or> c = CHR ''E'' then
            (let (neg, u) = split_sign cs; ds = takeWhile is_digit u
             in if ds = [] then 0 else if neg then - digits_val ds else digits_val ds)
          else 0)"

definition pow10 :: "int \<Rightarrow> rat" where
  "pow10 e = (if e < 0 then 1 / 10 ^ nat (- e) else 10 ^ nat e)"

definition parseFloat :: "string \<Rightarrow> number" where
  \<comment> \<open>The longest prefix that is a decimal literal, rounded to a double; \<open>None\<close> is NaN.\<close>
  "parseFloat s =
     (let (neg, u) = split_sign (trimStart s)
      in if startsWith u ''Infinity'' then Some (js_inf neg)
         else
           (let ip = takeWhile is_digit u;
                r1 = dropWhile is_digit u;
                fp = (case r1 of [] \<Rightarrow> [] | c # cs \<Rightarrow> if c = CHR ''.'' then takeWhile is_digit cs else []);
                r2 = (case r1 of [] \<Rightarrow> [] | c # cs \<Rightarrow> if c = CHR ''.'' then dropWhile is_digit cs else r1)
            in if ip = [] \<and> fp = [] then None
               else
                 (let m = of_int (digits_val ip) + of_int (digits_val fp) / 10 ^ length fp;
                      v = m * pow10 (exponentPart r2)
                  in Some (to_double (if neg then - v else v)))))"

text \<open>
  \<open>Number::toString\<close> for a double \<open>x\<close> of at least 1e21, where it gives the exponential
  notation. \<open>shortest\<close> looks for the decimal with the fewest significant digits \<open>k\<close> that
  rounds to \<open>x\<close>; among two of them it takes the nearer one, and the one with the even
  last digit on a tie. Seventeen digits always suffice for a double.
\<close>

function shortest :: "rat \<Rightarrow> int \<Rightarrow> int \<Rightarrow> rat" where
  "shortest x n k =
     (let u = pow10 (n - k);
          s = \<lfloor>x / u\<rfloor>;
          lo = of_int s * u;
          hi = lo + u;
          ok_lo = (to_double lo = x);
          ok_hi = (to_double hi = x);
          nearer = (if x - lo < hi - x then lo else if hi - x < x - lo then hi
                    else if even s then lo else hi)
      in if ok_lo \<and> ok_hi then nearer
         else if ok_lo then lo
         else if ok_hi then hi
         else if 17 \<le> k then nearer
         else shortest x n (k + 1))"
  by pat_completeness auto
termination
  by (relation "measure (\<lambda>(x, n, k). nat (17 - k))") auto

declare shortest.simps [simp del]

definition exponential :: "rat \<Rightarrow> string" where
  "exponential x =
     (let n = int (length (digits_of \<lfloor>x\<rfloor>));
          ds = digits_of \<lfloor>shortest x n 1\<rfloor>;
          sig = rev (dropWhile (\<lambda>c. c = CHR ''0'') (rev ds))
      in [hd sig] @ (if tl sig = [] then [] else ''.'' @ tl sig) @ ''e+'' @ digits_of (int (length ds) - 1))"

definition toFixed2 :: "number \<Rightarrow> string" where
  \<comment> \<open>\<open>x.toFixed(2)\<close>: the nearest hundredth, the larger one on a tie, the sign kept; from
      1e21 on, what \<open>toString\<close> gives.\<close>
  "toFixed2 v =
     (case v of
        None \<Rightarrow> ''NaN''
      | Some x \<Rightarrow>
          if is_inf x then (if x < 0 then ''-Infinity'' else ''Infinity'')
          else if 10 ^ 21 \<le> \<bar>x\<bar> then (if x < 0 then ''-'' else '''') @ exponential \<bar>x\<bar>
          else
            (let n = \<lfloor>\<bar>x\<bar> * 100 + 1 / 2\<rfloor>
             in (if x < 0 then ''-'' else '''') @ digits_of (n div 100) @ ''.'' @
                [digit_char (n mod 100 div 10), digit_char (n mod 10)]))"

definition formatCurrency :: "number \<Rightarrow> string" where
  "formatCurrency v = toFixed2 v"

definition toLowerCase :: "string \<Rightarrow> string" where
  "toLowerCase s =
     map (\<lambda>c. let n = (of_char c :: int) in if 65 \<le> n \<and> n \<le> 90 then char_of (n + 32) else c) s"

fun str_includes :: "string \<Rightarrow> string \<Rightarrow> bool" where
  "str_includes [] p = (p = [])"
| "str_includes (c # cs) p = (startsWith (c # cs) p \<or> str_includes cs p)"

section \<open>The sale entry form (components/product-entry-form.tsx)\<close>

record ServiceDetail =
  id' :: string
  name :: string
  description :: string
  price :: rat
  createdAt :: string

datatype payment_method = Cash | Online

record SellData =
  productId :: string
  name :: string
  description :: string
  unitPrice :: number
  quantity :: int
  totalPriceCalculated :: number
  finalPriceCharged :: number
  discount :: number
  phoneNumber :: "string option"
  soldAt :: string
  paymentMethod :: payment_method

datatype message_type = Success | Error

text \<open>
  The component's state: one field for each \<open>useState\<close> of \<open>ProductEntryForm\<close>. The
  quantity is held as the integer that was read; where it enters a product it is the
  double nearest to that integer, which is the number \<open>parseInt\<close> returns.
\<close>

record form_state =
  searchTerm :: string
  products :: "ServiceDetail list"
  filteredProducts :: "ServiceDetail list"
  selectedProduct :: "ServiceDetail option"
  unitPrice :: string
  quantity :: int
  totalPriceCalculated :: number
  discountInput :: string
  finalPriceCharged :: string
  phoneNumber :: string
  paymentMethod :: payment_method
  message :: "(message_type \<times> string) option"
  showSuggestions :: bool
  isLoading :: bool

definition initial_form :: form_state where
  "initial_form =
     \<lparr>searchTerm = [], products = [], filteredProducts = [], selectedProduct = None,
      form_state.unitPrice = [], form_state.quantity = 1,
      form_state.totalPriceCalculated = Some 0, discountInput = [],
      form_state.finalPriceCharged = [], form_state.phoneNumber = [],
      form_state.paymentMethod = Cash, message = None, showSuggestions = False,
      isLoading = False\<rparr>"

text \<open>
  The body of the effect that recomputes the total and the final price. It runs after the
  first render and after every render in which one of its dependencies (selected product,
  unit price, quantity, discount input) changed. Dependencies are compared by value here.
\<close>

definition priceEffect :: "form_state \<Rightarrow> form_state" where
  "priceEffect st =
     (if selectedProduct st \<noteq> None \<and> form_state.unitPrice st \<noteq> [] then
        (let priceVal = parseFloat (form_state.unitPrice st);
             calculatedTotal = js_mul priceVal (Some (to_double (of_int (form_state.quantity st))));
             discountVal = or_zero (parseFloat (discountInput st));
             finalPrice = js_sub calculatedTotal discountVal
         in if js_lt finalPrice (Some 0) then
              st\<lparr>form_state.totalPriceCalculated := calculatedTotal,
                 discountInput := formatCurrency calculatedTotal,
                 form_state.finalPriceCharged := formatCurrency (Some 0)\<rparr>
            else
              st\<lparr>form_state.totalPriceCalculated := calculatedTotal,
                 form_state.finalPriceCharged := formatCurrency finalPrice\<rparr>)
      else
        st\<lparr>form_state.totalPriceCalculated := Some 0, discountInput := [],
           form_state.finalPriceCharged := []\<rparr>)"

definition deps :: "form_state \<Rightarrow> ServiceDetail option \<times> string \<times> int \<times> string" where
  "deps st = (selectedProduct st, form_state.unitPrice st, form_state.quantity st, discountInput st)"

definition handleSearchChange :: "string \<Rightarrow> form_state \<Rightarrow> form_state" where
  "handleSearchChange v st =
     (if trim v = [] then
        st\<lparr>searchTerm := v, filteredProducts := [], showSuggestions := False\<rparr>
      else
        st\<lparr>searchTerm := v,
           filteredProducts :=
             filter (\<lambda>product. str_includes (toLowerCase (ServiceDetail.name product)) (toLowerCase v))
               (products st),
           showSuggestions := True\<rparr>)"

definition handleSelectProduct :: "ServiceDetail \<Rightarrow> form_state \<Rightarrow> form_state" where
  "handleSelectProduct product st =
     st\<lparr>selectedProduct := Some product,
        form_state.unitPrice := toFixed2 (Some (price product)),
        form_state.quantity := 1,
        discountInput := [],
        searchTerm := ServiceDetail.name product,
        showSuggestions := False,
        message := None\<rparr>"

definition handleQuantityChange :: "string \<Rightarrow> form_state \<Rightarrow> form_state" where
  "handleQuantityChange v st =
     (let val = parseInt v;
          newQuantity = max 1 (case val of None \<Rightarrow> 1 | Some n \<Rightarrow> n)
      in st\<lparr>form_state.quantity := newQuantity, discountInput := []\<rparr>)"

definition handleDiscountChange :: "string \<Rightarrow> form_state \<Rightarrow> form_state" where
  "handleDiscountChange v st =
     (let discountVal = parseFloat v;
          st1 = st\<lparr>discountInput := v\<rparr>;
          calculatedTotal = form_state.totalPriceCalculated st
      in if js_lt (Some 0) calculatedTotal \<and> \<not> isNaN discountVal \<and> js_ge discountVal (Some 0) then
           (let newFinalPrice = js_sub calculatedTotal discountVal;
                capped = (if js_lt newFinalPrice (Some 0) then Some 0 else newFinalPrice)
            in st1\<lparr>form_state.finalPriceCharged := formatCurrency capped\<rparr>)
         else if trim v = [] \<or> isNaN discountVal \<or> js_lt discountVal (Some 0) then
           st1\<lparr>form_state.finalPriceCharged := formatCurrency calculatedTotal\<rparr>
         else st1)"

text \<open>
  What lies outside the component when a sale is submitted: the clock, whether the write
  to the record store succeeds, and how the invoice call ends.
\<close>

datatype notifier_outcome = Delivered | NotDelivered | RequestFailed

record sell_env =
  now :: string
  storeWriteOk :: bool
  notifier :: notifier_outcome

datatype sell_result = ValidationError | WriteOk SellData | WriteFailed SellData

definition sendWhatsAppMessage :: "notifier_outcome \<Rightarrow> form_state \<Rightarrow> form_state" where
  "sendWhatsAppMessage r st =
     (case r of
        Delivered \<Rightarrow> st
      | NotDelivered \<Rightarrow> st\<lparr>message := Some (Error, ''Failed to send WhatsApp invoice message.'')\<rparr>
      | RequestFailed \<Rightarrow> st\<lparr>message := Some (Error, ''Failed to send WhatsApp invoice message.'')\<rparr>)"

definition handleSell :: "sell_env \<Rightarrow> form_state \<Rightarrow> sell_result \<times> form_state" where
  "handleSell env st =
     (case selectedProduct st of
        None \<Rightarrow> (ValidationError, st\<lparr>message := Some (Error, ''No product selected to sell.'')\<rparr>)
      | Some product \<Rightarrow>
          (let finalPriceVal = parseFloat (form_state.finalPriceCharged st)
           in if isNaN finalPriceVal \<or> js_lt finalPriceVal (Some 0) then
                (ValidationError,
                 st\<lparr>message := Some (Error, ''Final price calculation error. Please review the inputs.'')\<rparr>)
              else
                (let unitPriceVal = parseFloat (form_state.unitPrice st);
                     calculatedTotal = js_mul unitPriceVal (Some (to_double (of_int (form_state.quantity st))));
                     finalDiscount = js_sub calculatedTotal finalPriceVal;
                     sellData =
                       \<lparr>productId = id' product,
                        SellData.name = ServiceDetail.name product,
                        SellData.description = ServiceDetail.description product,
                        SellData.unitPrice = unitPriceVal,
                        SellData.quantity = form_state.quantity st,
                        SellData.totalPriceCalculated = calculatedTotal,
                        SellData.finalPriceCharged = finalPriceVal,
                        discount = (if js_lt (Some 0) finalDiscount then finalDiscount else Some 0),
                        SellData.phoneNumber =
                          (if trim (form_state.phoneNumber st) = [] then None
                           else Some (trim (form_state.phoneNumber st))),
                        soldAt = now env,
                        SellData.paymentMethod = form_state.paymentMethod st\<rparr>
                 in if storeWriteOk env then
                      (let st1 = (if SellData.phoneNumber sellData \<noteq> None
                                  then sendWhatsAppMessage (notifier env) st else st)
                       in (WriteOk sellData,
                           st1\<lparr>message :=
                                 Some (Success,
                                   ''Product sold successfully. Invoice sent via WhatsApp (if number provided).''),
                               selectedProduct := None,
                               form_state.unitPrice := [],
                               form_state.quantity := 1,
                               form_state.totalPriceCalculated := Some 0,
                               discountInput := [],
                               form_state.finalPriceCharged := [],
                               searchTerm := [],
                               form_state.phoneNumber := [],
                               form_state.paymentMethod := Cash,
                               isLoading := False\<rparr>))
                    else
                      (WriteFailed sellData,
                       st\<lparr>message := Some (Error, ''Failed to sell product.''), isLoading := False\<rparr>))))"


text \<open>
  Events of the form. After a handler the effect runs when a dependency changed, and
  again for as long as its own writes change one.
\<close>

datatype event =
    ProductsLoaded "ServiceDetail list"
  | SearchChange string
  | SearchFocus
  | SelectProduct ServiceDetail
  | QuantityChange string
  | DiscountChange string
  | PhoneChange string
  | PaymentChange payment_method
  | Sell sell_env

fun handle :: "event \<Rightarrow> form_state \<Rightarrow> form_state" where
  "handle (ProductsLoaded ps) st = st\<lparr>products := ps\<rparr>"
| "handle (SearchChange v) st = handleSearchChange v st"
| "handle SearchFocus st = st\<lparr>showSuggestions := (filteredProducts st \<noteq> [])\<rparr>"
| "handle (SelectProduct product) st = handleSelectProduct product st"
| "handle (QuantityChange v) st = handleQuantityChange v st"
| "handle (DiscountChange v) st = handleDiscountChange v st"
| "handle (PhoneChange v) st = st\<lparr>form_state.phoneNumber := v\<rparr>"
| "handle (PaymentChange m) st = st\<lparr>form_state.paymentMethod := m\<rparr>"
| "handle (Sell env) st = snd (handleSell env st)"

lemma deps_priceEffect_twice: "deps (priceEffect (priceEffect st)) = deps (priceEffect st)"
  by (simp add: priceEffect_def deps_def Let_def)

function settle :: "form_state \<Rightarrow> form_state" where
  "settle st = (let st' = priceEffect st in if deps st' = deps st then st' else settle st')"
  by pat_completeness auto
termination
  by (relation "measure (\<lambda>st. if deps (priceEffect st) = deps st then 0 else 1)")
    (auto simp: deps_priceEffect_twice)

declare settle.simps [simp del]

definition step :: "event \<Rightarrow> form_state \<Rightarrow> form_state" where
  "step ev st = (let st' = handle ev st in if deps st' = deps st then st' else settle st')"

definition mounted :: form_state where
  "mounted = settle initial_form"

definition run :: "event list \<Rightarrow> form_state \<Rightarrow> form_state" where
  "run evs st = foldl (\<lambda>s ev. step ev s) st evs"

definition form_fields ::
  "form_state \<Rightarrow> ServiceDetail option \<times> string \<times> int \<times> string \<times> string \<times> string \<times> payment_method \<times> string" where
  \<comment> \<open>The fields of the entry form that the user fills in or reads.\<close>
  "form_fields st =
     (selectedProduct st, form_state.unitPrice st, form_state.quantity st, discountInput st,
      form_state.finalPriceCharged st, form_state.phoneNumber st, form_state.paymentMethod st,
      searchTerm st)"


text \<open>Rounding to the nearest hundredth as \<open>toFixed(2)\<close> does.\<close>

definition round2 :: "rat \<Rightarrow> rat" where
  "round2 x =
     (if x < 0 then - (of_int \<lfloor>\<bar>x\<bar> * 100 + 1 / 2\<rfloor> / 100)
      else of_int \<lfloor>\<bar>x\<bar> * 100 + 1 / 2\<rfloor> / 100)"

text \<open>
  The total of a draft, \<open>parseFloat(unitPrice) * quantity\<close>, as the effect and the
  submission compute it.
\<close>

definition draft_total :: "form_state \<Rightarrow> number" where
  "draft_total st =
     js_mul (parseFloat (form_state.unitPrice st)) (Some (to_double (of_int (form_state.quantity st))))"

text \<open>The record handed to the store, when a write was attempted.\<close>

fun attempted :: "sell_result \<Rightarrow> SellData option" where
  "attempted ValidationError = None"
| "attempted (WriteOk d) = Some d"
| "attempted (WriteFailed d) = Some d"

text \<open>Example data: the catalog entry of the specification's scenario, and a submission.\<close>

definition visa_service :: ServiceDetail where
  "visa_service =
     \<lparr>id' = ''svc-1'', ServiceDetail.name = ''Visa Service'', ServiceDetail.description = ''Visa'',
      price = 500, createdAt = ''2024-01-01T00:00:00.000Z''\<rparr>"

definition negative_price_service :: ServiceDetail where
  "negative_price_service =
     \<lparr>id' = ''svc-2'', ServiceDetail.name = ''Refund'', ServiceDetail.description = ''Refund'',
      price = - 5, createdAt = ''2024-01-01T00:00:00.000Z''\<rparr>"

definition example_env :: sell_env where
  "example_env = \<lparr>now = ''2024-01-15T10:00:00.000Z'', storeWriteOk = True, notifier = Delivered\<rparr>"

section \<open>Dates\<close>

text \<open>
  A \<open>Date\<close> is represented by what the code reads from it: its time value and its
  calendar fields in the local time zone. What the date libraries and the clock compute
  (parsing a string, the current date, the bounds of a day and of the current and the
  previous week) is a parameter of the model. An invalid date is \<open>None\<close>; every
  comparison with it is false.
\<close>

record jsdate =
  getTime :: int
  getFullYear :: int
  getMonth :: int
  getDate :: int

record calendar =
  today :: jsdate
  parseISO :: "string \<Rightarrow> jsdate option"
  newDate :: "string \<Rightarrow> jsdate option"
  startOfDay :: "jsdate \<Rightarrow> int"
  endOfDay :: "jsdate \<Rightarrow> int"
  startOfWeek :: int
  startOfLastWeek :: int
  endOfLastWeek :: int

definition isSameYear :: "jsdate option \<Rightarrow> jsdate option \<Rightarrow> bool" where
  "isSameYear a b =
     (case a of None \<Rightarrow> False
      | Some x \<Rightarrow> (case b of None \<Rightarrow> False | Some y \<Rightarrow> getFullYear x = getFullYear y))"

definition isSameMonth :: "jsdate option \<Rightarrow> jsdate option \<Rightarrow> bool" where
  "isSameMonth a b =
     (case a of None \<Rightarrow> False
      | Some x \<Rightarrow>
          (case b of None \<Rightarrow> False
           | Some y \<Rightarrow> getFullYear x = getFullYear y \<and> getMonth x = getMonth y))"

definition isSameDay :: "jsdate option \<Rightarrow> jsdate option \<Rightarrow> bool" where
  "isSameDay a b =
     (case a of None \<Rightarrow> False
      | Some x \<Rightarrow>
          (case b of None \<Rightarrow> False
           | Some y \<Rightarrow> getFullYear x = getFullYear y \<and> getMonth x = getMonth y \<and> getDate x = getDate y))"

definition isToday :: "calendar \<Rightarrow> jsdate option \<Rightarrow> bool" where
  "isToday cal a = isSameDay a (Some (today cal))"

definition newDateYear :: "calendar \<Rightarrow> int option \<Rightarrow> jsdate option" where
  \<comment> \<open>\<open>new Date(y, 0, 1)\<close>: only its year is read; years 0 to 99 count from 1900.\<close>
  "newDateYear cal y =
     (case y of
        None \<Rightarrow> None
      | Some n \<Rightarrow>
          Some \<lparr>getTime = 0, getFullYear = (if 0 \<le> n \<and> n \<le> 99 then 1900 + n else n),
                getMonth = 0, getDate = 1\<rparr>)"

section \<open>The service sales page\<close>

text \<open>
  The repository holds the page in an earlier and a later version. The earlier one
  (components/ServiceSalesPage.tsx, and a variant of it with the same filter and the same
  counting) reads sale records that carry a single price; the later one reads records with
  quantity, discount and final price. Definitions of the earlier version end in \<open>_v1\<close>.
  The numeric fields of a record that was read are finite numbers: the loader applies
  \<open>Number(v || 0)\<close> to what the store holds, and the store holds neither NaN nor an
  infinity.
\<close>

datatype filter_mode = Today | Month | Year | Day | All

record SellData_v1 =
  id' :: string
  productId :: string
  name :: string
  paymentMethod :: string
  price :: rat
  soldAt :: string

record SellData_v2 =
  id' :: string
  productId :: string
  name :: string
  paymentMethod :: string
  unitPrice :: rat
  quantity :: rat
  totalPriceCalculated :: rat
  finalPriceCharged :: rat
  discount :: rat
  soldAt :: string

record ProductQuantity =
  name :: string
  quantity :: number

record 'a page_state =
  sellData :: "'a list"
  filter' :: filter_mode
  selectedDateInput :: string
  selectedMonthInput :: string
  selectedYearInput :: string

definition initial_page :: "'a page_state" where
  "initial_page =
     \<lparr>sellData = [], filter' = Today, selectedDateInput = [], selectedMonthInput = [],
      selectedYearInput = []\<rparr>"

subsection \<open>Filtering\<close>

text \<open>The filter of the earlier version, the first half of its effect.\<close>

definition filteredSales_v1 :: "calendar \<Rightarrow> SellData_v1 page_state \<Rightarrow> SellData_v1 list" where
  "filteredSales_v1 cal st =
     (if filter' st = Today then
        filter (\<lambda>sale. isToday cal (parseISO cal (SellData_v1.soldAt sale))) (sellData st)
      else if filter' st = Month \<and> selectedMonthInput st \<noteq> [] then
        (let monthDate = parseISO cal (selectedMonthInput st @ ''-01'')
         in filter (\<lambda>sale. isSameMonth (parseISO cal (SellData_v1.soldAt sale)) monthDate) (sellData st))
      else if filter' st = Year \<and> selectedYearInput st \<noteq> [] then
        (let yearDate = newDateYear cal (parseInt (selectedYearInput st))
         in filter (\<lambda>sale. isSameYear (parseISO cal (SellData_v1.soldAt sale)) yearDate) (sellData st))
      else if filter' st = Day \<and> selectedDateInput st \<noteq> [] then
        (let dayDate = parseISO cal (selectedDateInput st)
         in filter (\<lambda>sale. isSameDay (parseISO cal (SellData_v1.soldAt sale)) dayDate) (sellData st))
      else if filter' st = All then sellData st
      else filter (\<lambda>sale. isToday cal (parseISO cal (SellData_v1.soldAt sale))) (sellData st))"

text \<open>
  The filter of the later version. It keeps the list it chose together with the flag
  \<open>defaultToToday\<close> and then tests the flag.
\<close>

definition filteredSales :: "calendar \<Rightarrow> SellData_v2 page_state \<Rightarrow> SellData_v2 list" where
  "filteredSales cal st =
     (let (sales, defaultToToday) =
        (if filter' st = Today then
           (filter (\<lambda>sale. isToday cal (parseISO cal (SellData_v2.soldAt sale))) (sellData st), False)
         else if filter' st = Month \<and> selectedMonthInput st \<noteq> [] then
           (let monthDate = parseISO cal (selectedMonthInput st @ ''-01'')
            in (filter (\<lambda>sale. isSameMonth (parseISO cal (SellData_v2.soldAt sale)) monthDate)
                  (sellData st), False))
         else if filter' st = Year \<and> selectedYearInput st \<noteq> [] then
           (let yearDate = newDateYear cal (parseInt (selectedYearInput st))
            in (filter (\<lambda>sale. isSameYear (parseISO cal (SellData_v2.soldAt sale)) yearDate)
                  (sellData st), False))
         else if filter' st = Day \<and> selectedDateInput st \<noteq> [] then
           (let dayDate = parseISO cal (selectedDateInput st)
            in (filter (\<lambda>sale. isSameDay (parseISO cal (SellData_v2.soldAt sale)) dayDate)
                  (sellData st), False))
         else if filter' st = All then (sellData st, False)
         else (filter (\<lambda>sale. isToday cal (parseISO cal (SellData_v2.soldAt sale))) (sellData st), True))
      in if \<not> defaultToToday \<and>
            ((filter' st = Day \<and> selectedDateInput st = []) \<or>
             (filter' st = Month \<and> selectedMonthInput st = []) \<or>
             (filter' st = Year \<and> selectedYearInput st = []))
         then [] else sales)"

subsection \<open>Filter controls\<close>

definition handleFilterChange :: "filter_mode \<Rightarrow> 'a page_state \<Rightarrow> 'a page_state" where
  "handleFilterChange newFilter st =
     st\<lparr>filter' := newFilter, selectedDateInput := [], selectedMonthInput := [],
        selectedYearInput := []\<rparr>"

datatype page_action =
    ClickToday
  | ClickAll
  | DayInput string
  | MonthInput string
  | YearInput string
  | ClickFilterDay
  | ClickFilterMonth
  | ClickFilterYear

fun page_handle :: "page_action \<Rightarrow> 'a page_state \<Rightarrow> 'a page_state" where
  "page_handle ClickToday st = handleFilterChange Today st"
| "page_handle ClickAll st = handleFilterChange All st"
| "page_handle (DayInput v) st =
     st\<lparr>selectedDateInput := v, filter' := Day, selectedMonthInput := [], selectedYearInput := []\<rparr>"
| "page_handle (MonthInput v) st =
     st\<lparr>selectedMonthInput := v, filter' := Month, selectedDateInput := [], selectedYearInput := []\<rparr>"
| "page_handle (YearInput v) st =
     st\<lparr>selectedYearInput := v, filter' := Year, selectedDateInput := [], selectedMonthInput := []\<rparr>"
| "page_handle ClickFilterDay st = (if selectedDateInput st \<noteq> [] then st\<lparr>filter' := Day\<rparr> else st)"
| "page_handle ClickFilterMonth st = (if selectedMonthInput st \<noteq> [] then st\<lparr>filter' := Month\<rparr> else st)"
| "page_handle ClickFilterYear st = (if selectedYearInput st \<noteq> [] then st\<lparr>filter' := Year\<rparr> else st)"

definition page_inputs_match :: "'a page_state \<Rightarrow> bool" where
  \<comment> \<open>Only the input of the selected mode may hold a value.\<close>
  "page_inputs_match st =
     ((filter' st = Day \<or> selectedDateInput st = []) \<and>
      (filter' st = Month \<or> selectedMonthInput st = []) \<and>
      (filter' st = Year \<or> selectedYearInput st = []))"

subsection \<open>Quantities by product\<close>

text \<open>
  The object \<open>productCount\<close> starts as \<open>{}\<close>. It is represented by the list of its own
  properties in insertion order. The lookup \<open>productCount[id]\<close> also finds what \<open>{}\<close>
  inherits from \<open>Object.prototype\<close>, under the names \<open>objectPrototypeKeys\<close>: each of these
  values is a function or an object, hence truthy, so for such an id the code takes the
  branch that updates \<open>.quantity\<close> of the inherited value, and creates no group.
  \<open>Object.values\<close> lists the own properties: those whose key is an array index first, in
  ascending order, then the others in insertion order.
\<close>

definition objectPrototypeKeys :: "string list" where
  "objectPrototypeKeys =
     [''constructor'', ''__defineGetter__'', ''__defineSetter__'', ''hasOwnProperty'',
      ''__lookupGetter__'', ''__lookupSetter__'', ''isPrototypeOf'', ''propertyIsEnumerable'',
      ''toString'', ''valueOf'', ''__proto__'', ''toLocaleString'']"

definition is_array_index :: "string \<Rightarrow> bool" where
  \<comment> \<open>The canonical decimal numeral of an integer from 0 to 2^32 - 2.\<close>
  "is_array_index k =
     (k \<noteq> [] \<and> list_all is_digit k \<and> (k = ''0'' \<or> 0 < digit_val (hd k)) \<and> digits_val k < 4294967295)"

definition objectValues :: "(string \<times> 'v) list \<Rightarrow> 'v list" where
  "objectValues obj =
     map snd
       (sort_key (\<lambda>p. digits_val (fst p)) (filter (\<lambda>p. is_array_index (fst p)) obj) @
        filter (\<lambda>p. \<not> is_array_index (fst p)) obj)"

fun bump :: "string \<Rightarrow> string \<Rightarrow> rat \<Rightarrow> (string \<times> ProductQuantity) list \<Rightarrow> (string \<times> ProductQuantity) list" where
  "bump k nm qty [] = [(k, \<lparr>ProductQuantity.name = nm, ProductQuantity.quantity = Some qty\<rparr>)]"
| "bump k nm qty ((k', v) # rest) =
     (if k' = k then
        (k', v\<lparr>ProductQuantity.quantity := js_add (ProductQuantity.quantity v) (Some qty)\<rparr>) # rest
      else (k', v) # bump k nm qty rest)"

definition countSale_v1 :: "(string \<times> ProductQuantity) list \<Rightarrow> SellData_v1 \<Rightarrow> (string \<times> ProductQuantity) list" where
  \<comment> \<open>The callback of the \<open>forEach\<close> of the earlier version: it adds 1 for each record.\<close>
  "countSale_v1 acc sale =
     (if SellData_v1.productId sale \<in> set objectPrototypeKeys then acc
      else bump (SellData_v1.productId sale) (SellData_v1.name sale) 1 acc)"

definition productCount_v1 :: "SellData_v1 list \<Rightarrow> (string \<times> ProductQuantity) list" where
  "productCount_v1 sales = foldl countSale_v1 [] sales"

definition productQuantities_v1 :: "SellData_v1 list \<Rightarrow> ProductQuantity list" where
  "productQuantities_v1 sales = objectValues (productCount_v1 sales)"

definition countSale :: "(string \<times> ProductQuantity) list \<Rightarrow> SellData_v2 \<Rightarrow> (string \<times> ProductQuantity) list" where
  \<comment> \<open>The callback of the \<open>forEach\<close>; \<open>sale.quantity || 1\<close> takes 1 for a quantity of 0.\<close>
  "countSale acc sale =
     (let qty = (if SellData_v2.quantity sale = 0 then 1 else SellData_v2.quantity sale)
      in if SellData_v2.productId sale \<in> set objectPrototypeKeys then acc
         else bump (SellData_v2.productId sale) (SellData_v2.name sale) qty acc)"

definition productCount :: "SellData_v2 list \<Rightarrow> (string \<times> ProductQuantity) list" where
  "productCount sales = foldl countSale [] sales"

definition productQuantities :: "SellData_v2 list \<Rightarrow> ProductQuantity list" where
  \<comment> \<open>\<open>Object.values(productCount).sort((a, b) => b.quantity - a.quantity)\<close>; the sort is
      stable, and two infinite quantities of the same sign compare as equal. A quantity
      that is NaN does not arise from finite quantities; it is placed with 0 here.\<close>
  "productQuantities sales =
     sort_key (\<lambda>p. case ProductQuantity.quantity p of None \<Rightarrow> 0 | Some q \<Rightarrow> - q)
       (objectValues (productCount sales))"

section \<open>The dashboard\<close>

record SellRecord =
  id' :: string
  productId :: string
  name :: string
  description :: string
  unitPrice :: rat
  quantity :: rat
  totalPriceCalculated :: rat
  finalPriceCharged :: rat
  discount :: rat
  phoneNumber :: "string option"
  soldAt :: string
  paymentMethod :: payment_method



record ProductReportItem =
  name :: string
  totalQuantity :: number
  totalAmount :: number
  totalDiscount :: number

definition MONTHS :: "string list" where
  \<comment> \<open>The long month names of the default locale, taken to be English.\<close>
  "MONTHS =
     [''January'', ''February'', ''March'', ''April'', ''May'', ''June'', ''July'', ''August'',
      ''September'', ''October'', ''November'', ''December'']"

fun indexOf :: "'a list \<Rightarrow> 'a \<Rightarrow> int" where
  "indexOf [] x = - 1"
| "indexOf (y # ys) x = (if y = x then 0 else (let i = indexOf ys x in if i < 0 then - 1 else i + 1))"

record dashboard_state =
  sells :: "SellRecord list"
  filteredMonth :: string
  filteredYear :: string
  filteredDay :: string
  filteredWeek :: string
  startDate :: "jsdate option"
  endDate :: "jsdate option"

definition initial_dashboard :: dashboard_state where
  "initial_dashboard =
     \<lparr>sells = [], filteredMonth = ''All'', filteredYear = ''All'', filteredDay = ''All'',
      filteredWeek = ''All'', startDate = None, endDate = None\<rparr>"

subsection \<open>Filtering\<close>

definition sell_matches :: "calendar \<Rightarrow> dashboard_state \<Rightarrow> SellRecord \<Rightarrow> bool" where
  \<comment> \<open>The predicate of \<open>filteredSells\<close>: each active criterion can reject the record.\<close>
  "sell_matches cal st sell =
     (let soldDate = newDate cal (SellRecord.soldAt sell)
      in if (case (startDate st, endDate st) of
               (Some s, Some e) \<Rightarrow>
                 \<not> (case soldDate of None \<Rightarrow> False
                    | Some d \<Rightarrow> startOfDay cal s \<le> getTime d \<and> getTime d \<le> endOfDay cal e)
             | _ \<Rightarrow> False)
         then False
         else if filteredYear st \<noteq> ''All'' \<and>
                 \<not> (case soldDate of None \<Rightarrow> False
                    | Some d \<Rightarrow> (case parseInt (filteredYear st) of None \<Rightarrow> False
                                 | Some y \<Rightarrow> getFullYear d = y))
         then False
         else if filteredMonth st \<noteq> ''All'' \<and>
                 \<not> (case soldDate of None \<Rightarrow> False
                    | Some d \<Rightarrow> getMonth d = indexOf MONTHS (filteredMonth st))
         then False
         else if filteredDay st \<noteq> ''All'' \<and>
                 \<not> (case soldDate of None \<Rightarrow> False
                    | Some d \<Rightarrow> (case parseInt (filteredDay st) of None \<Rightarrow> False
                                 | Some n \<Rightarrow> getDate d = n))
         then False
         else if filteredWeek st \<noteq> ''All'' \<and>
                 \<not> (if filteredWeek st = ''This Week'' then
                      (case soldDate of None \<Rightarrow> False | Some d \<Rightarrow> startOfWeek cal \<le> getTime d)
                    else if filteredWeek st = ''Last Week'' then
                      (case soldDate of None \<Rightarrow> False
                       | Some d \<Rightarrow> startOfLastWeek cal \<le> getTime d \<and> getTime d \<le> endOfLastWeek cal)
                    else True)
         then False
         else True)"

definition filteredSells :: "calendar \<Rightarrow> dashboard_state \<Rightarrow> SellRecord list" where
  "filteredSells cal st = filter (sell_matches cal st) (sells st)"

definition isFilterActive :: "dashboard_state \<Rightarrow> bool" where
  "isFilterActive st =
     (filteredMonth st \<noteq> ''All'' \<or> filteredYear st \<noteq> ''All'' \<or> filteredDay st \<noteq> ''All'' \<or>
      filteredWeek st \<noteq> ''All'' \<or> startDate st \<noteq> None \<or> endDate st \<noteq> None)"

definition currentViewSells :: "calendar \<Rightarrow> dashboard_state \<Rightarrow> SellRecord list" where
  "currentViewSells cal st =
     (if isFilterActive st then filteredSells cal st
      else
        filter (\<lambda>sell.
          (case newDate cal (SellRecord.soldAt sell) of
             None \<Rightarrow> False
           | Some soldDate \<Rightarrow>
               getDate soldDate = getDate (today cal) \<and>
               getMonth soldDate = getMonth (today cal) \<and>
               getFullYear soldDate = getFullYear (today cal)))
          (sells st))"

subsection \<open>Statistics, chart data and the report by product\<close>


record SellStats =
  totalQuantitySold :: number
  totalMoneyCollected :: number
  totalDiscountGiven :: number
  totalCashSales :: number
  totalOnlineSales :: number
  cashTransactions :: nat
  onlineTransactions :: nat

definition getSellStats :: "SellRecord list \<Rightarrow> SellStats" where
  \<comment> \<open>Each \<open>reduce\<close> adds doubles from left to right, starting from 0.\<close>
  "getSellStats data =
     (let cashSales = filter (\<lambda>sell. SellRecord.paymentMethod sell = Cash) data;
          onlineSales = filter (\<lambda>sell. SellRecord.paymentMethod sell = Online) data
      in \<lparr>totalQuantitySold =
            foldl (\<lambda>acc sell. js_add acc (Some (SellRecord.quantity sell))) (Some 0) data,
          totalMoneyCollected =
            foldl (\<lambda>acc sell. js_add acc (Some (SellRecord.finalPriceCharged sell))) (Some 0) data,
          totalDiscountGiven =
            foldl (\<lambda>acc sell. js_add acc (Some (SellRecord.discount sell))) (Some 0) data,
          totalCashSales =
            foldl (\<lambda>acc sell. js_add acc (Some (SellRecord.finalPriceCharged sell))) (Some 0) cashSales,
          totalOnlineSales =
            foldl (\<lambda>acc sell. js_add acc (Some (SellRecord.finalPriceCharged sell))) (Some 0) onlineSales,
          cashTransactions = length cashSales,
          onlineTransactions = length onlineSales\<rparr>)"




text \<open>
  The object \<open>productMap\<close> starts as \<open>{}\<close>. It is represented by the list of its own
  properties in insertion order (assigning to a key that is present keeps its place),
  together with the report item that an assignment to the key \<open>__proto__\<close> has installed
  as its prototype: such an assignment calls the setter inherited from \<open>Object.prototype\<close>
  and creates no own property, and what it stored is read back under that key only. Under
  every other key that is not an own property the lookup \<open>acc[sell.name]\<close> gives
  \<open>undefined\<close>, a function, a string or a number, the field \<open>?.totalQuantity\<close> of which is
  \<open>undefined\<close>, and the assignment creates the own property.
\<close>

fun assign :: "string \<Rightarrow> 'v \<Rightarrow> (string \<times> 'v) list \<Rightarrow> (string \<times> 'v) list" where
  "assign k v [] = [(k, v)]"
| "assign k v ((k', v') # rest) = (if k' = k then (k', v) # rest else (k', v') # assign k v rest)"

definition addToProductMap ::
  "(string \<times> ProductReportItem) list \<times> ProductReportItem option \<Rightarrow> SellRecord \<Rightarrow>
   (string \<times> ProductReportItem) list \<times> ProductReportItem option" where
  \<comment> \<open>The callback of the \<open>reduce\<close> that builds \<open>productMap\<close>; \<open>undefined || 0\<close> and
      \<open>NaN || 0\<close> are 0.\<close>
  "addToProductMap acc sell =
     (let old = (if SellRecord.name sell = ''__proto__'' then snd acc
                 else map_of (fst acc) (SellRecord.name sell));
          item =
            \<lparr>ProductReportItem.name = SellRecord.name sell,
             totalQuantity =
               js_add (or_zero (case old of None \<Rightarrow> None | Some it \<Rightarrow> totalQuantity it))
                 (Some (SellRecord.quantity sell)),
             totalAmount =
               js_add (or_zero (case old of None \<Rightarrow> None | Some it \<Rightarrow> totalAmount it))
                 (Some (SellRecord.finalPriceCharged sell)),
             totalDiscount =
               js_add (or_zero (case old of None \<Rightarrow> None | Some it \<Rightarrow> totalDiscount it))
                 (Some (SellRecord.discount sell))\<rparr>
      in if SellRecord.name sell = ''__proto__'' then (fst acc, Some item)
         else (assign (SellRecord.name sell) item (fst acc), snd acc))"

definition productMap ::
  "SellRecord list \<Rightarrow> (string \<times> ProductReportItem) list \<times> ProductReportItem option" where
  "productMap data = foldl addToProductMap ([], None) data"

definition aggregatedProductSales :: "calendar \<Rightarrow> dashboard_state \<Rightarrow> ProductReportItem list" where
  "aggregatedProductSales cal st = objectValues (fst (productMap (filteredSells cal st)))"

subsection \<open>Filter controls\<close>

datatype dashboard_action =
    MonthSelect string
  | YearSelect string
  | DaySelect string
  | WeekSelect string
  | StartDatePick "jsdate option"
  | EndDatePick "jsdate option"
  | ResetFilters

definition handleFilterReset :: "dashboard_state \<Rightarrow> dashboard_state" where
  "handleFilterReset st =
     st\<lparr>filteredMonth := ''All'', filteredYear := ''All'', filteredDay := ''All'',
        filteredWeek := ''All'', startDate := None, endDate := None\<rparr>"

fun dashboard_handle :: "dashboard_action \<Rightarrow> dashboard_state \<Rightarrow> dashboard_state" where
  "dashboard_handle (MonthSelect v) st =
     st\<lparr>filteredMonth := v, filteredDay := ''All'', filteredWeek := ''All'', startDate := None,
        endDate := None\<rparr>"
| "dashboard_handle (YearSelect v) st =
     st\<lparr>filteredYear := v, filteredDay := ''All'', filteredWeek := ''All'', startDate := None,
        endDate := None\<rparr>"
| "dashboard_handle (DaySelect v) st =
     st\<lparr>filteredDay := v, filteredWeek := ''All'', startDate := None, endDate := None\<rparr>"
| "dashboard_handle (WeekSelect v) st =
     st\<lparr>filteredWeek := v, filteredMonth := ''All'', filteredYear := ''All'', filteredDay := ''All'',
        startDate := None, endDate := None\<rparr>"
| "dashboard_handle (StartDatePick date) st =
     (let st1 = st\<lparr>startDate := date, filteredMonth := ''All'', filteredYear := ''All'',
                    filteredDay := ''All'', filteredWeek := ''All''\<rparr>
      in case (endDate st, date) of
           (Some e, Some d) \<Rightarrow> if getTime e < getTime d then st1\<lparr>endDate := None\<rparr> else st1
         | _ \<Rightarrow> st1)"
| "dashboard_handle (EndDatePick date) st =
     st\<lparr>endDate := date, filteredMonth := ''All'', filteredYear := ''All'', filteredDay := ''All'',
        filteredWeek := ''All''\<rparr>"
| "dashboard_handle ResetFilters st = handleFilterReset st"

text \<open>
  The filter inputs fall into three groups: the calendar selectors (month, year, day), the
  week selector, and the custom date range.
\<close>

definition calendar_group :: "dashboard_state \<Rightarrow> bool" where
  "calendar_group st =
     (filteredMonth st \<noteq> ''All'' \<or> filteredYear st \<noteq> ''All'' \<or> filteredDay st \<noteq> ''All'')"

definition week_group :: "dashboard_state \<Rightarrow> bool" where
  "week_group st = (filteredWeek st \<noteq> ''All'')"

definition range_group :: "dashboard_state \<Rightarrow> bool" where
  "range_group st = (startDate st \<noteq> None \<or> endDate st \<noteq> None)"

definition one_group_at_most :: "dashboard_state \<Rightarrow> bool" where
  "one_group_at_most st =
     (\<not> (calendar_group st \<and> week_group st) \<and> \<not> (calendar_group st \<and> range_group st) \<and>
      \<not> (week_group st \<and> range_group st))"


section \<open>Notions used to state the properties of the pages\<close>

text \<open>A mode that needs a value is selected and its input is empty.\<close>

definition value_missing :: "'a page_state \<Rightarrow> bool" where
  "value_missing st =
     ((filter' st = Day \<and> selectedDateInput st = []) \<or>
      (filter' st = Month \<and> selectedMonthInput st = []) \<or>
      (filter' st = Year \<and> selectedYearInput st = []))"

text \<open>
  A sum of amounts as the code forms it: doubles added one after the other, each addition
  rounded. \<open>added_from a xs\<close> starts from the number \<open>a\<close>; \<open>added_or_zero xs\<close> starts from 0
  and puts 0 for a sum that has become NaN, as \<open>(sum || 0) + x\<close> does. An amount is whole
  when it is an integer.
\<close>

definition added_from :: "number \<Rightarrow> rat list \<Rightarrow> number" where
  "added_from a xs = foldl (\<lambda>acc x. js_add acc (Some x)) a xs"

definition added_or_zero :: "rat list \<Rightarrow> number" where
  "added_or_zero xs = foldl (\<lambda>acc x. js_add (or_zero acc) (Some x)) (Some 0) xs"

definition added_numbers :: "number list \<Rightarrow> number" where
  "added_numbers xs = foldl js_add (Some 0) xs"

definition is_whole :: "rat \<Rightarrow> bool" where
  "is_whole x = (of_int \<lfloor>x\<rfloor> = x)"

text \<open>The quantity the later sales page counts for a record: \<open>sale.quantity || 1\<close>.\<close>

definition counted_quantity :: "SellData_v2 \<Rightarrow> rat" where
  "counted_quantity sale = (if SellData_v2.quantity sale = 0 then 1 else SellData_v2.quantity sale)"

text \<open>Sequences of actions on the filter controls.\<close>

definition page_run :: "page_action list \<Rightarrow> 'a page_state \<Rightarrow> 'a page_state" where
  "page_run acts st = foldl (\<lambda>s a. page_handle a s) st acts"

definition dashboard_run :: "dashboard_action list \<Rightarrow> dashboard_state \<Rightarrow> dashboard_state" where
  "dashboard_run acts st = foldl (\<lambda>s a. dashboard_handle a s) st acts"


text \<open>
  Example data: a clock standing at 15 January 2024, which knows the dates of two
  timestamps, and sales made at the first of them.
\<close>

definition example_calendar :: calendar where
  "example_calendar =
     \<lparr>today = \<lparr>getTime = 1705312800000, getFullYear = 2024, getMonth = 0, getDate = 15\<rparr>,
      parseISO = map_of
        [(''2024-01-15T10:00:00.000Z'',
            \<lparr>getTime = 1705312800000, getFullYear = 2024, getMonth = 0, getDate = 15\<rparr>),
         (''2023-02-10T10:00:00.000Z'',
            \<lparr>getTime = 1676023200000, getFullYear = 2023, getMonth = 1, getDate = 10\<rparr>)],
      newDate = map_of
        [(''2024-01-15T10:00:00.000Z'',
            \<lparr>getTime = 1705312800000, getFullYear = 2024, getMonth = 0, getDate = 15\<rparr>),
         (''2023-02-10T10:00:00.000Z'',
            \<lparr>getTime = 1676023200000, getFullYear = 2023, getMonth = 1, getDate = 10\<rparr>)],
      startOfDay = (\<lambda>d. getTime d - getTime d mod 86400000),
      endOfDay = (\<lambda>d. getTime d - getTime d mod 86400000 + 86399999),
      startOfWeek = 1705190400000,
      startOfLastWeek = 1704585600000,
      endOfLastWeek = 1705190399999\<rparr>"

definition sale_today :: SellData_v2 where
  "sale_today =
     \<lparr>SellData_v2.id' = ''s1'', SellData_v2.productId = ''svc-1'', SellData_v2.name = ''Visa Service'',
      SellData_v2.paymentMethod = ''cash'', SellData_v2.unitPrice = 500, SellData_v2.quantity = 1,
      SellData_v2.totalPriceCalculated = 500, SellData_v2.finalPriceCharged = 500,
      SellData_v2.discount = 0, SellData_v2.soldAt = ''2024-01-15T10:00:00.000Z''\<rparr>"

definition sale_today_v1 :: SellData_v1 where
  "sale_today_v1 =
     \<lparr>SellData_v1.id' = ''s1'', SellData_v1.productId = ''svc-1'', SellData_v1.name = ''Visa Service'',
      SellData_v1.paymentMethod = ''cash'', SellData_v1.price = 500,
      SellData_v1.soldAt = ''2024-01-15T10:00:00.000Z''\<rparr>"

definition sale_without_quantity :: SellData_v2 where
  "sale_without_quantity = sale_today\<lparr>SellData_v2.quantity := 0\<rparr>"

definition sale_of_three :: SellData_v2 where
  "sale_of_three = sale_today\<lparr>SellData_v2.quantity := 3\<rparr>"

definition january_sale :: SellRecord where
  "january_sale =
     \<lparr>SellRecord.id' = ''s1'', SellRecord.productId = ''svc-1'', SellRecord.name = ''Visa Service'',
      SellRecord.description = ''Visa'', SellRecord.unitPrice = 500, SellRecord.quantity = 1,
      SellRecord.totalPriceCalculated = 500, SellRecord.finalPriceCharged = 500,
      SellRecord.discount = 0, SellRecord.phoneNumber = None,
      SellRecord.soldAt = ''2024-01-15T10:00:00.000Z'', SellRecord.paymentMethod = Cash\<rparr>"

text \<open>
  Four sales of two products, with final prices 0.1, 0.2, 0.3 and 0.7 as doubles, and two
  sales of one product with whole amounts.
\<close>

definition sale_named :: "string \<Rightarrow> rat \<Rightarrow> SellRecord" where
  "sale_named nm amount =
     january_sale\<lparr>SellRecord.name := nm, SellRecord.unitPrice := amount,
       SellRecord.totalPriceCalculated := amount, SellRecord.finalPriceCharged := amount\<rparr>"

definition fractional_sales :: "SellRecord list" where
  "fractional_sales =
     [sale_named ''A'' (to_double (1 / 10)), sale_named ''B'' (to_double (2 / 10)),
      sale_named ''A'' (to_double (3 / 10)), sale_named ''B'' (to_double (7 / 10))]"

definition whole_sales :: "SellRecord list" where
  "whole_sales = [sale_named ''A'' 500, sale_named ''B'' 1200, sale_named ''A'' 250]"

section \<open>Properties of the numbers\<close>

subsection \<open>Powers of two and the binary exponent\<close>

lemma pow2n_eq: "pow2n e = 2 ^ nat e"
proof (induction e rule: pow2n.induct)
  case (1 e)
  show ?case
  proof (cases "e \<le> 0")
    case True
    then show ?thesis by (subst pow2n.simps) simp
  next
    case pos: False
    show ?thesis
    proof (cases "even e")
      case True
      have h: "pow2n (e div 2) = 2 ^ nat (e div 2)" using 1(1) pos True by simp
      have "nat (e div 2) + nat (e div 2) = nat e" using pos True by (auto elim!: evenE)
      then have "(2::int) ^ nat (e div 2) * 2 ^ nat (e div 2) = 2 ^ nat e"
        by (simp flip: power_add)
      then show ?thesis using pos True h by (subst pow2n.simps) (simp add: Let_def)
    next
      case False
      have h: "pow2n (e - 1) = 2 ^ nat (e - 1)" using 1(2) pos False by simp
      have "Suc (nat (e - 1)) = nat e" using pos by simp
      then have "(2::int) * 2 ^ nat (e - 1) = 2 ^ nat e" by (metis power_Suc)
      then show ?thesis using pos False h by (subst pow2n.simps) simp
    qed
  qed
qed

lemma pow2_powi: "pow2 e = 2 powi e"
  by (simp add: pow2_def pow2n_eq power_int_def power_one_over inverse_eq_divide)

lemma pow2_pos: "0 < pow2 e"
  by (simp add: pow2_powi)

lemma pow2_add: "pow2 (a + b) = pow2 a * pow2 b"
  by (simp add: pow2_powi power_int_add)

lemma pow2_mono: "a \<le> b \<Longrightarrow> pow2 a \<le> pow2 b"
  by (simp add: pow2_powi power_int_increasing)

lemma pow2_strict_mono: "a < b \<Longrightarrow> pow2 a < pow2 b"
  by (simp add: pow2_powi power_int_strict_increasing)

lemma pow2_less_iff: "pow2 a < pow2 b \<longleftrightarrow> a < b"
  using pow2_strict_mono [of a b] pow2_mono [of b a] by (auto simp: not_le [symmetric])

lemma pow2_nat: "0 \<le> e \<Longrightarrow> pow2 e = 2 ^ nat e"
  by (simp add: pow2_powi power_int_def)

lemma pow2_of_int: "0 \<le> e \<Longrightarrow> pow2 e = of_int (2 ^ nat e)"
  by (simp add: pow2_nat)

lemma int_ge_pow2: "0 \<le> e \<Longrightarrow> 2 ^ nat e \<le> n \<Longrightarrow> pow2 e \<le> of_int n"
  by (simp only: pow2_of_int of_int_le_iff)

lemma int_less_pow2: "0 \<le> e \<Longrightarrow> n < 2 ^ nat e \<Longrightarrow> of_int n < pow2 e"
  by (simp only: pow2_of_int of_int_less_iff)

lemma scaled_val:
  assumes x: "0 < x" and s: "scaled x p = (N, D)"
  shows "0 < N" and "0 < D" and "of_int N / of_int D = x / pow2 p"
proof -
  obtain n d where q: "quotient_of x = (n, d)" by (cases "quotient_of x")
  have d: "0 < d" using q by (rule quotient_of_denom_pos)
  have xv: "x = of_int n / of_int d" using q by (rule quotient_of_div)
  have n: "0 < n" using x d xv by (simp add: zero_less_divide_iff)
  have p2: "(0::int) < 2 ^ k" for k by simp
  show "0 < N" using s q n by (auto simp: scaled_def pow2n_eq split: if_splits)
  show "0 < D" using s q d by (auto simp: scaled_def pow2n_eq split: if_splits)
  show "of_int N / of_int D = x / pow2 p"
    using s q by (auto simp: scaled_def pow2n_eq pow2_def xv split: if_splits)
qed

lemma scaled_ge:
  assumes x: "0 < x" and s: "scaled x p = (N, D)"
  shows "K * D \<le> N \<longleftrightarrow> of_int K * pow2 p \<le> x"
proof -
  note v = scaled_val [OF x s]
  have "of_int K * pow2 p \<le> x \<longleftrightarrow> of_int K \<le> x / pow2 p"
    using pow2_pos [of p] by (simp add: pos_le_divide_eq)
  also have "\<dots> \<longleftrightarrow> of_int K \<le> (of_int N :: rat) / of_int D" by (simp only: v(3))
  also have "\<dots> \<longleftrightarrow> (of_int (K * D) :: rat) \<le> of_int N"
    using v(2) by (simp add: pos_le_divide_eq)
  also have "\<dots> \<longleftrightarrow> K * D \<le> N" by (simp only: of_int_le_iff)
  finally show ?thesis by simp
qed

lemma ilog2_bounds:
  assumes x: "0 < x"
  shows "pow2 (ilog2 x) \<le> x" and "x < pow2 (ilog2 x + 1)"
proof -
  obtain n d where q: "quotient_of x = (n, d)" by (cases "quotient_of x")
  have d: "0 < d" using q by (rule quotient_of_denom_pos)
  have xv: "x = of_int n / of_int d" using q by (rule quotient_of_div)
  have n: "0 < n" using x d xv by (simp add: zero_less_divide_iff)
  define k where "k = bitlen n - bitlen d"
  obtain N D where s: "scaled x k = (N, D)" by (cases "scaled x k")
  have il: "ilog2 x = (if D \<le> N then k else k - 1)"
    by (simp add: ilog2_def q k_def [symmetric] s)
  have bn: "1 \<le> bitlen n" "1 \<le> bitlen d"
    using n d by (simp_all add: bitlen_alt_def)
  have nb: "pow2 (bitlen n - 1) \<le> of_int n" "of_int n < pow2 (bitlen n)"
    using bitlen_bounds [OF n] bn by (simp_all add: int_ge_pow2 int_less_pow2)
  have db: "pow2 (bitlen d - 1) \<le> of_int d" "of_int d < pow2 (bitlen d)"
    using bitlen_bounds [OF d] bn by (simp_all add: int_ge_pow2 int_less_pow2)
  have dpos: "(0::rat) < of_int d" using d by simp
  have up: "x < pow2 (k + 1)"
  proof -
    have "of_int n < pow2 (bitlen n)" by (rule nb)
    also have "\<dots> = pow2 (k + 1) * pow2 (bitlen d - 1)"
      by (simp add: k_def pow2_add [symmetric])
    also have "\<dots> \<le> pow2 (k + 1) * of_int d"
      using db(1) pow2_pos [of "k + 1"] by (simp add: mult_left_mono)
    finally show ?thesis using dpos by (simp add: xv pos_divide_less_eq)
  qed
  have low: "pow2 (k - 1) < x"
  proof -
    have "pow2 (k - 1) * of_int d < pow2 (k - 1) * pow2 (bitlen d)"
      using db(2) pow2_pos [of "k - 1"] by (simp add: mult_strict_left_mono)
    also have "\<dots> = pow2 (bitlen n - 1)" by (simp add: k_def pow2_add [symmetric])
    also have "\<dots> \<le> of_int n" by (rule nb)
    finally show ?thesis using dpos by (simp add: xv pos_less_divide_eq)
  qed
  have ge: "D \<le> N \<longleftrightarrow> pow2 k \<le> x" using scaled_ge [OF x s, of 1] by simp
  show "pow2 (ilog2 x) \<le> x" using il ge low by (auto simp: less_imp_le)
  show "x < pow2 (ilog2 x + 1)" using il ge up by (auto simp: not_le)
qed


lemma scaled_le:
  assumes x: "0 < x" and s: "scaled x p = (N, D)"
  shows "N \<le> K * D \<longleftrightarrow> x \<le> of_int K * pow2 p"
proof -
  note v = scaled_val [OF x s]
  have "x \<le> of_int K * pow2 p \<longleftrightarrow> x / pow2 p \<le> of_int K"
    using pow2_pos [of p] by (simp add: pos_divide_le_eq)
  also have "\<dots> \<longleftrightarrow> (of_int N :: rat) / of_int D \<le> of_int K" by (simp only: v(3))
  also have "\<dots> \<longleftrightarrow> (of_int N :: rat) \<le> of_int (K * D)"
    using v(2) by (simp add: pos_divide_le_eq)
  also have "\<dots> \<longleftrightarrow> N \<le> K * D" by (simp only: of_int_le_iff)
  finally show ?thesis by simp
qed

lemma div_ge: "0 < D \<Longrightarrow> K * D \<le> N \<Longrightarrow> K \<le> N div D" for D :: int
  using zdiv_mono1 [of "K * D" N D] by simp

lemma div_less:
  fixes D :: int
  assumes D: "0 < D" and less: "N < K * D"
  shows "N div D < K"
proof (rule ccontr)
  assume "\<not> N div D < K"
  then have "K \<le> N div D" by simp
  then have "K * D \<le> N div D * D" using D by (simp add: mult_right_mono)
  moreover have "N div D * D + N mod D = N" by simp
  moreover have "0 \<le> N mod D" using D by simp
  ultimately show False using less by linarith
qed

lemma rhe_ge: "0 < D \<Longrightarrow> K * D \<le> N \<Longrightarrow> K \<le> round_half_even N D"
  using div_ge [of D K N] by (simp add: round_half_even_def Let_def)

lemma rhe_le:
  assumes D: "0 < D" and le: "N \<le> K * D"
  shows "round_half_even N D \<le> K"
proof (cases "N = K * D")
  case True
  then show ?thesis using D by (simp add: round_half_even_def Let_def)
next
  case False
  then have "N div D < K" using D le by (simp add: div_less)
  then show ?thesis by (simp add: round_half_even_def Let_def)
qed

lemma significand_ge:
  assumes "0 < a" and "of_int K * pow2 (quantum a) \<le> a"
  shows "K \<le> significand a"
proof -
  obtain N D where s: "scaled a (quantum a) = (N, D)" by (cases "scaled a (quantum a)")
  have "K * D \<le> N" using scaled_ge [OF assms(1) s] assms(2) by simp
  then show ?thesis using scaled_val(2) [OF assms(1) s] by (simp add: significand_def s rhe_ge)
qed

lemma significand_le:
  assumes "0 < a" and "a \<le> of_int K * pow2 (quantum a)"
  shows "significand a \<le> K"
proof -
  obtain N D where s: "scaled a (quantum a) = (N, D)" by (cases "scaled a (quantum a)")
  have "N \<le> K * D" using scaled_le [OF assms(1) s] assms(2) by simp
  then show ?thesis using scaled_val(2) [OF assms(1) s] by (simp add: significand_def s rhe_le)
qed

lemma significand_eq: "0 < a \<Longrightarrow> a = of_int K * pow2 (quantum a) \<Longrightarrow> significand a = K"
  using significand_ge [of a K] significand_le [of a K] by simp

lemma significand_nonneg: "0 < a \<Longrightarrow> 0 \<le> significand a"
  by (rule significand_ge) simp_all

lemma quantum_ge: "- 1074 \<le> quantum a" "ilog2 a - 52 \<le> quantum a"
  by (simp_all add: quantum_def)

lemma pow2_53: "pow2 53 = 9007199254740992"
  by (simp add: pow2_nat)

lemma pow2n_53: "pow2n 53 = 9007199254740992"
  by (simp add: pow2n_eq)

lemma significand_le_53:
  assumes "0 < a"
  shows "significand a \<le> 9007199254740992"
proof (rule significand_le [OF assms])
  have "a < pow2 (ilog2 a + 1)" using assms by (rule ilog2_bounds)
  also have "\<dots> \<le> pow2 (53 + quantum a)" using quantum_ge(2) [of a] by (intro pow2_mono) simp
  also have "\<dots> = of_int 9007199254740992 * pow2 (quantum a)" by (simp add: pow2_add pow2_53)
  finally show "a \<le> of_int 9007199254740992 * pow2 (quantum a)" by simp
qed

lemma significand_pos:
  assumes "pow2 (- 1074) \<le> a"
  shows "1 \<le> significand a"
proof -
  have a: "0 < a" using assms pow2_pos [of "- 1074"] by simp
  have "pow2 (quantum a) \<le> a"
  proof (cases "ilog2 a - 52 \<le> - 1074")
    case True
    then show ?thesis using assms by (simp add: quantum_def max_def)
  next
    case False
    then have "quantum a \<le> ilog2 a" by (simp add: quantum_def)
    then have "pow2 (quantum a) \<le> pow2 (ilog2 a)" by (rule pow2_mono)
    then show ?thesis using ilog2_bounds(1) [OF a] by simp
  qed
  then show ?thesis using a by (intro significand_ge) simp_all
qed

lemma to_double_0: "to_double 0 = 0"
  by (simp add: to_double_def)

lemma to_double_minus: "to_double (- x) = - to_double x"
  by (simp add: to_double_def Let_def)

lemma to_double_pos:
  "0 < a \<Longrightarrow> to_double a =
     (if 971 < quantum a \<or> (quantum a = 971 \<and> 9007199254740992 \<le> significand a) then DBL_INF
      else of_int (significand a) * pow2 (quantum a))"
  by (simp add: to_double_def Let_def pow2n_53)

lemma DBL_INF_pos: "0 < DBL_INF"
  by (simp add: DBL_INF_def pow2_pos)

lemma to_double_nonneg: "0 \<le> x \<Longrightarrow> 0 \<le> to_double x"
proof (cases "x = 0")
  case True
  then show ?thesis by (simp add: to_double_0)
next
  case False
  assume "0 \<le> x"
  with False have x: "0 < x" by simp
  show ?thesis
    using significand_nonneg [OF x] pow2_pos [of "quantum x"] DBL_INF_pos
    by (simp add: to_double_pos [OF x])
qed

lemma to_double_nonpos: "x \<le> 0 \<Longrightarrow> to_double x \<le> 0"
  using to_double_nonneg [of "- x"] by (simp add: to_double_minus)

lemma to_double_exact:
  assumes M: "0 < M" "M < 9007199254740992" and P: "- 1074 \<le> P"
      and a: "a = of_int M * pow2 P" and fin: "a < DBL_INF"
  shows "to_double a = a"
proof -
  have pos: "0 < a" using M(1) pow2_pos [of P] by (simp add: a)
  have "pow2 (ilog2 a) \<le> a" using pos by (rule ilog2_bounds)
  also have "a < of_int 9007199254740992 * pow2 P"
    using M(2) pow2_pos [of P] by (simp add: a)
  also have "\<dots> = pow2 (53 + P)" by (simp add: pow2_add pow2_53)
  finally have "ilog2 a < 53 + P" by (simp only: pow2_less_iff)
  then have qP: "quantum a \<le> P" using P by (simp add: quantum_def)
  define K where "K = M * 2 ^ nat (P - quantum a)"
  have "pow2 P = pow2 (P - quantum a) * pow2 (quantum a)" by (simp add: pow2_add [symmetric])
  also have "pow2 (P - quantum a) = of_int (2 ^ nat (P - quantum a))"
    using qP by (simp add: pow2_of_int)
  finally have aK: "a = of_int K * pow2 (quantum a)" by (simp add: a K_def)
  have sK: "significand a = K" using pos aK by (rule significand_eq)
  have n1: "\<not> 971 < quantum a"
  proof
    assume h: "971 < quantum a"
    then have "quantum a = ilog2 a - 52" by (simp add: quantum_def max_def split: if_splits)
    with h have "1024 \<le> ilog2 a" by simp
    then have "pow2 1024 \<le> pow2 (ilog2 a)" by (rule pow2_mono)
    also have "\<dots> \<le> a" using pos by (rule ilog2_bounds)
    finally show False using fin by (simp add: DBL_INF_def)
  qed
  have n2: "\<not> (quantum a = 971 \<and> 9007199254740992 \<le> significand a)"
  proof
    assume h: "quantum a = 971 \<and> 9007199254740992 \<le> significand a"
    have "pow2 1024 = of_int 9007199254740992 * pow2 971"
      using pow2_add [of 53 971] by (simp add: pow2_53)
    also have "\<dots> \<le> of_int K * pow2 971"
      using h sK pow2_pos [of 971] by (intro mult_right_mono) simp_all
    also have "\<dots> = a" using h aK by simp
    finally show False using fin by (simp add: DBL_INF_def)
  qed
  have "to_double a = of_int (significand a) * pow2 (quantum a)"
    using n1 n2 by (auto simp: to_double_pos [OF pos])
  also have "\<dots> = a" by (simp only: sK aK [symmetric])
  finally show ?thesis .
qed


lemma DBL_INF_val: "DBL_INF = 2 ^ 1024"
  by (simp add: DBL_INF_def pow2_nat)

lemma pow2_0: "pow2 0 = 1"
  by (simp add: pow2_nat)

lemma pow2_1: "pow2 1 = 2"
  by (simp add: pow2_nat)

lemma to_double_of_int:
  assumes "\<bar>n\<bar> \<le> 9007199254740992"
  shows "to_double (of_int n) = of_int n"
proof -
  have pos: "to_double (of_int m) = of_int m" if m: "0 < m" "m \<le> 9007199254740992" for m :: int
  proof -
    have "(of_int m :: rat) \<le> of_int 9007199254740992" using m(2) by (simp only: of_int_le_iff)
    also have "\<dots> < DBL_INF" by (simp add: DBL_INF_val)
    finally have fin: "of_int m < DBL_INF" .
    show ?thesis
    proof (cases "m = 9007199254740992")
      case True
      have "(of_int m :: rat) = of_int 4503599627370496 * pow2 1" by (simp add: True pow2_1)
      then show ?thesis using fin by (intro to_double_exact [of 4503599627370496 1]) simp_all
    next
      case False
      have "(of_int m :: rat) = of_int m * pow2 0" by (simp add: pow2_0)
      then show ?thesis using fin m False by (intro to_double_exact [of m 0]) simp_all
    qed
  qed
  consider "0 < n" | "n = 0" | "n < 0" by linarith
  then show ?thesis
  proof cases
    case 1
    then show ?thesis using assms by (intro pos) simp_all
  next
    case 2
    then show ?thesis by (simp add: to_double_0)
  next
    case 3
    then have "to_double (of_int (- n)) = of_int (- n)" using assms by (intro pos) simp_all
    then show ?thesis by (simp add: to_double_minus)
  qed
qed

lemma to_double_finite:
  assumes a: "0 < a"
      and no: "\<not> (971 < quantum a \<or> (quantum a = 971 \<and> 9007199254740992 \<le> significand a))"
  shows "to_double a = of_int (significand a) * pow2 (quantum a)" and "to_double a < DBL_INF"
proof -
  show v: "to_double a = of_int (significand a) * pow2 (quantum a)"
    using no by (auto simp: to_double_pos [OF a])
  have i: "DBL_INF = of_int 9007199254740992 * pow2 971"
    using pow2_add [of 53 971] by (simp add: DBL_INF_def pow2_53)
  have "of_int (significand a) * pow2 (quantum a) < DBL_INF"
  proof (cases "quantum a = 971")
    case True
    with no have "significand a < 9007199254740992" by simp
    then have "(of_int (significand a) :: rat) < of_int 9007199254740992" by (simp only: of_int_less_iff)
    then show ?thesis using pow2_pos [of 971] by (simp add: True i)
  next
    case ne: False
    with no have "quantum a \<le> 970" by simp
    then have "pow2 (quantum a) \<le> pow2 970" by (rule pow2_mono)
    moreover have "(of_int (significand a) :: rat) \<le> of_int 9007199254740992"
      using significand_le_53 [OF a] by (simp only: of_int_le_iff)
    moreover have "(0 :: rat) \<le> of_int (significand a)" using significand_nonneg [OF a] by simp
    ultimately have "of_int (significand a) * pow2 (quantum a) \<le> of_int 9007199254740992 * pow2 970"
      using pow2_pos [of "quantum a"] by (intro mult_mono) simp_all
    also have "\<dots> = pow2 1023" using pow2_add [of 53 970] by (simp add: pow2_53)
    also have "\<dots> < DBL_INF" by (simp add: DBL_INF_def pow2_less_iff)
    finally show ?thesis .
  qed
  then show "to_double a < DBL_INF" by (simp only: v)
qed

lemma to_double_pos_cases:
  assumes a: "0 < a"
  shows "to_double a = DBL_INF \<or>
    (to_double a = of_int (significand a) * pow2 (quantum a) \<and> to_double a < DBL_INF \<and>
     quantum a \<le> 971)"
proof (cases "971 < quantum a \<or> (quantum a = 971 \<and> 9007199254740992 \<le> significand a)")
  case True
  then show ?thesis by (auto simp: to_double_pos [OF a])
next
  case False
  then show ?thesis using to_double_finite [OF a False] by auto
qed

lemma to_double_le_inf: "\<bar>to_double x\<bar> \<le> DBL_INF"
proof -
  have pos: "\<bar>to_double a\<bar> \<le> DBL_INF" if "0 < a" for a
    using to_double_pos_cases [OF that] to_double_nonneg [of a] that DBL_INF_pos by auto
  consider "0 < x" | "x = 0" | "x < 0" by linarith
  then show ?thesis
  proof cases
    case 1
    then show ?thesis by (rule pos)
  next
    case 2
    then show ?thesis using DBL_INF_pos by (simp add: to_double_0)
  next
    case 3
    then have "\<bar>to_double (- x)\<bar> \<le> DBL_INF" by (intro pos) simp
    then show ?thesis by (simp add: to_double_minus)
  qed
qed

lemma to_double_overflow:
  assumes "DBL_INF \<le> a"
  shows "to_double a = DBL_INF"
proof -
  have a: "0 < a" using assms DBL_INF_pos by simp
  have "pow2 1024 \<le> a" using assms by (simp add: DBL_INF_def)
  also have "a < pow2 (ilog2 a + 1)" using a by (rule ilog2_bounds)
  finally have "1024 < ilog2 a + 1" by (simp only: pow2_less_iff)
  then have "971 < quantum a" by (simp add: quantum_def)
  then show ?thesis by (simp add: to_double_pos [OF a])
qed

lemma to_double_idem: "to_double (to_double x) = to_double x"
proof -
  have pos: "to_double (to_double a) = to_double a" if a: "0 < a" for a
  proof -
    from to_double_pos_cases [OF a] show ?thesis
    proof
      assume "to_double a = DBL_INF"
      then show ?thesis by (simp add: to_double_overflow)
    next
      assume h: "to_double a = of_int (significand a) * pow2 (quantum a) \<and> to_double a < DBL_INF \<and>
        quantum a \<le> 971"
      let ?m = "significand a" and ?p = "quantum a"
      have m0: "0 \<le> ?m" using a by (rule significand_nonneg)
      have m53: "?m \<le> 9007199254740992" using a by (rule significand_le_53)
      consider "?m = 0" | "0 < ?m" "?m < 9007199254740992" | "?m = 9007199254740992"
        using m0 m53 by linarith
      then show ?thesis
      proof cases
        case 1
        then show ?thesis using h by (simp add: to_double_0)
      next
        case 2
        show ?thesis
          using h quantum_ge(1) [of a] 2
          by (intro to_double_exact [where M = "?m" and P = "?p" and a = "to_double a"]) simp_all
      next
        case 3
        have "to_double a = of_int 4503599627370496 * pow2 (?p + 1)"
          using h by (simp add: 3 pow2_add pow2_1)
        then show ?thesis using h quantum_ge(1) [of a]
          by (intro to_double_exact [where M = 4503599627370496 and P = "?p + 1" and a = "to_double a"])
            simp_all
      qed
    qed
  qed
  consider "0 < x" | "x = 0" | "x < 0" by linarith
  then show ?thesis
  proof cases
    case 1
    then show ?thesis by (rule pos)
  next
    case 2
    then show ?thesis by (simp add: to_double_0)
  next
    case 3
    then have "to_double (to_double (- x)) = to_double (- x)" by (intro pos) simp
    then show ?thesis by (simp add: to_double_minus)
  qed
qed

lemma to_double_grid: "\<exists>k::int. to_double x = of_int k * pow2 (- 1074)"
proof -
  define K :: int where "K = 2 ^ nat 2098"
  have "pow2 1024 = pow2 2098 * pow2 (- 1074)" using pow2_add [of 2098 "- 1074"] by simp
  also have "pow2 2098 = of_int K" unfolding K_def by (rule pow2_of_int) simp
  finally have inf: "DBL_INF = of_int K * pow2 (- 1074)" by (simp only: DBL_INF_def)
  have pos: "\<exists>k::int. to_double a = of_int k * pow2 (- 1074)" if a: "0 < a" for a
  proof -
    from to_double_pos_cases [OF a] show ?thesis
    proof
      assume "to_double a = DBL_INF"
      then have "to_double a = of_int K * pow2 (- 1074)" by (simp only: inf)
      then show ?thesis ..
    next
      assume h: "to_double a = of_int (significand a) * pow2 (quantum a) \<and> to_double a < DBL_INF \<and>
        quantum a \<le> 971"
      have "pow2 (quantum a) = pow2 (quantum a + 1074) * pow2 (- 1074)"
        by (simp add: pow2_add [symmetric])
      also have "pow2 (quantum a + 1074) = of_int (2 ^ nat (quantum a + 1074))"
        using quantum_ge(1) [of a] by (simp add: pow2_of_int)
      finally have "to_double a = of_int (significand a * 2 ^ nat (quantum a + 1074)) * pow2 (- 1074)"
        using h by simp
      then show ?thesis ..
    qed
  qed
  consider "0 < x" | "x = 0" | "x < 0" by linarith
  then show ?thesis
  proof cases
    case 1
    then show ?thesis by (rule pos)
  next
    case 2
    have "to_double x = of_int 0 * pow2 (- 1074)" by (simp add: 2 to_double_0)
    then show ?thesis ..
  next
    case 3
    then have "\<exists>k::int. to_double (- x) = of_int k * pow2 (- 1074)" by (intro pos) simp
    then obtain k :: int where "to_double (- x) = of_int k * pow2 (- 1074)" ..
    then have "to_double x = of_int (- k) * pow2 (- 1074)" by (simp add: to_double_minus)
    then show ?thesis ..
  qed
qed

lemma to_double_pos_grid:
  assumes "pow2 (- 1074) \<le> a"
  shows "0 < to_double a"
proof -
  have a: "0 < a" using assms pow2_pos [of "- 1074"] by simp
  have "(0::rat) < of_int (significand a)" using significand_pos [OF assms] by simp
  then have "0 < of_int (significand a) * pow2 (quantum a)" using pow2_pos [of "quantum a"] by simp
  then show ?thesis using to_double_pos_cases [OF a] DBL_INF_pos by auto
qed

lemma to_double_small:
  assumes "\<bar>x\<bar> < pow2 1023"
  shows "\<bar>to_double x\<bar> < DBL_INF"
proof -
  have pos: "\<bar>to_double a\<bar> < DBL_INF" if a: "0 < a" "a < pow2 1023" for a
  proof -
    have "pow2 (ilog2 a) \<le> a" using a(1) by (rule ilog2_bounds)
    also note a(2)
    finally have "ilog2 a < 1023" by (simp only: pow2_less_iff)
    then have "\<not> (971 < quantum a \<or> (quantum a = 971 \<and> 9007199254740992 \<le> significand a))"
      by (auto simp: quantum_def max_def)
    then have "to_double a < DBL_INF" by (rule to_double_finite [OF a(1)])
    then show ?thesis using to_double_nonneg [of a] a(1) by simp
  qed
  consider "0 < x" | "x = 0" | "x < 0" by linarith
  then show ?thesis
  proof cases
    case 1
    then show ?thesis using assms by (intro pos) simp_all
  next
    case 2
    then show ?thesis using DBL_INF_pos by (simp add: to_double_0)
  next
    case 3
    then have "\<bar>to_double (- x)\<bar> < DBL_INF" using assms by (intro pos) simp_all
    then show ?thesis by (simp add: to_double_minus)
  qed
qed

subsection \<open>Numbers as the operations deliver them\<close>

lemma DBL_INF_large: "10 ^ 21 + 1 < DBL_INF" "9007199254740992 < DBL_INF" "0 < DBL_INF"
  "10 ^ 21 + 1 < pow2 1023"
  by (simp_all add: DBL_INF_val pow2_nat)

lemma to_double_js_inf: "to_double (js_inf b) = js_inf b"
  by (simp add: js_inf_def to_double_overflow to_double_minus)

lemma js_mul_double: "js_mul a b = Some t \<Longrightarrow> to_double t = t"
  by (auto simp: js_mul_def to_double_idem to_double_js_inf split: option.splits if_splits)

lemma js_add_double: "js_add a b = Some t \<Longrightarrow> to_double t = t"
  by (auto simp: js_add_def to_double_idem to_double_js_inf split: option.splits if_splits)

lemma parseFloat_double: "parseFloat s = Some d \<Longrightarrow> to_double d = d"
  by (auto simp: parseFloat_def Let_def to_double_idem to_double_js_inf split: prod.splits if_splits)

lemma double_inf: "to_double t = t \<Longrightarrow> is_inf t \<Longrightarrow> \<bar>t\<bar> = DBL_INF"
  using to_double_le_inf [of t] by (simp add: is_inf_def)

lemma sub_finite:
  "\<not> is_inf t \<Longrightarrow> \<not> is_inf d \<Longrightarrow> js_sub (Some t) (Some d) = Some (to_double (t - d))"
  by (simp add: js_sub_def js_add_def is_inf_def)

lemma double_diff_negative:
  assumes t: "to_double t = t" and d: "to_double d = d" and less: "t < d"
  shows "to_double (t - d) < 0"
proof -
  obtain k :: int where k: "to_double t = of_int k * pow2 (- 1074)" using to_double_grid ..
  obtain l :: int where l: "to_double d = of_int l * pow2 (- 1074)" using to_double_grid ..
  have tk: "t = of_int k * pow2 (- 1074)" and dl: "d = of_int l * pow2 (- 1074)"
    using k l t d by simp_all
  have "of_int k * pow2 (- 1074) < of_int l * pow2 (- 1074)" using less by (simp only: tk dl)
  then have "(of_int k :: rat) < of_int l" using pow2_pos [of "- 1074"] by (simp add: mult_less_cancel_right)
  then have "k < l" by (simp only: of_int_less_iff)
  then have "1 \<le> l - k" by simp
  then have "(of_int 1 :: rat) \<le> of_int (l - k)" by (simp only: of_int_le_iff)
  then have "1 * pow2 (- 1074) \<le> of_int (l - k) * pow2 (- 1074)"
    using pow2_pos [of "- 1074"] by (intro mult_right_mono) simp_all
  also have "\<dots> = d - t" by (simp add: tk dl algebra_simps)
  finally have "pow2 (- 1074) \<le> d - t" by simp
  then have "0 < to_double (d - t)" by (rule to_double_pos_grid)
  then show ?thesis using to_double_minus [of "d - t"] by simp
qed

lemma sub_doubles_negative:
  assumes t: "to_double t = t" and d: "to_double d = d" and less: "t < d"
  shows "\<exists>y. js_sub (Some t) (Some d) = Some y \<and> y < 0"
proof (cases "is_inf t \<or> is_inf d")
  case False
  then show ?thesis using double_diff_negative [OF assms] by (simp add: sub_finite)
next
  case True
  have it: "is_inf t \<Longrightarrow> \<bar>t\<bar> = DBL_INF" using t by (rule double_inf)
  have id: "is_inf d \<Longrightarrow> \<bar>d\<bar> = DBL_INF" using d by (rule double_inf)
  show ?thesis
    using True less it id DBL_INF_large(3)
    by (auto simp: js_sub_def js_add_def js_inf_def is_inf_def abs_if split: if_splits)
qed

lemma sub_nonneg:
  assumes "d \<le> t" and "js_sub (Some t) (Some d) = Some y" and "y < 10 ^ 21"
  shows "0 \<le> y" and "\<not> is_inf y"
proof -
  show "0 \<le> y"
    using assms DBL_INF_large(1) DBL_INF_large(3) to_double_nonneg [of "t - d"]
    by (auto simp: js_sub_def js_add_def js_inf_def is_inf_def abs_if split: if_splits)
  then show "\<not> is_inf y" using assms(3) DBL_INF_large(1) by (simp add: is_inf_def)
qed

subsection \<open>Sums of whole amounts\<close>

lemma is_whole_iff: "is_whole x \<longleftrightarrow> (\<exists>k::int. x = of_int k)"
  by (auto simp: is_whole_def)

lemma add_whole:
  assumes "is_whole a" and "is_whole x" and "\<bar>a\<bar> + \<bar>x\<bar> \<le> 9007199254740992"
  shows "js_add (Some a) (Some x) = Some (a + x)" and "is_whole (a + x)"
proof -
  obtain k :: int where k: "a = of_int k" using assms(1) unfolding is_whole_iff ..
  obtain l :: int where l: "x = of_int l" using assms(2) unfolding is_whole_iff ..
  have b: "\<bar>k\<bar> + \<bar>l\<bar> \<le> 9007199254740992"
  proof -
    have "(of_int (\<bar>k\<bar> + \<bar>l\<bar>) :: rat) \<le> of_int 9007199254740992" using assms(3) by (simp add: k l)
    then show ?thesis by (simp only: of_int_le_iff)
  qed
  have "\<bar>a\<bar> < DBL_INF" "\<bar>x\<bar> < DBL_INF" using assms(3) DBL_INF_large(2) by simp_all
  then have fin: "\<not> is_inf a" "\<not> is_inf x" by (simp_all add: is_inf_def)
  have "to_double (a + x) = to_double (of_int (k + l))" by (simp add: k l)
  also have "\<dots> = of_int (k + l)" using b by (intro to_double_of_int) simp
  finally have "to_double (a + x) = a + x" by (simp add: k l)
  then show "js_add (Some a) (Some x) = Some (a + x)" using fin by (simp add: js_add_def)
  have "a + x = of_int (k + l)" by (simp add: k l)
  then show "is_whole (a + x)" unfolding is_whole_iff ..
qed

lemma added_from_whole:
  assumes "list_all is_whole xs" and "is_whole a"
      and "\<bar>a\<bar> + sum_list (map abs xs) \<le> 9007199254740992"
  shows "added_from (Some a) xs = Some (a + sum_list xs)"
  using assms
proof (induction xs arbitrary: a)
  case Nil
  then show ?case by (simp add: added_from_def)
next
  case (Cons x xs)
  have x: "is_whole x" and xs: "list_all is_whole xs" using Cons.prems(1) by simp_all
  have nn: "0 \<le> sum_list (map abs xs)" by (rule sum_list_nonneg) auto
  have b: "\<bar>a\<bar> + \<bar>x\<bar> \<le> 9007199254740992" using Cons.prems(3) nn by simp
  note s = add_whole [OF Cons.prems(2) x b]
  have "\<bar>a + x\<bar> + sum_list (map abs xs) \<le> 9007199254740992" using Cons.prems(3) by simp
  then have "added_from (Some (a + x)) xs = Some (a + x + sum_list xs)"
    using xs s(2) by (intro Cons.IH)
  then show ?case by (simp add: added_from_def s(1) add.assoc)
qed

lemma added_or_zero_from:
  "foldl (\<lambda>acc x. js_add (or_zero acc) (Some x)) (Some a) xs = added_from (Some a) xs"
  if "list_all is_whole xs" "is_whole a" "\<bar>a\<bar> + sum_list (map abs xs) \<le> 9007199254740992"
  using that
proof (induction xs arbitrary: a)
  case Nil
  then show ?case by (simp add: added_from_def)
next
  case (Cons x xs)
  have x: "is_whole x" and xs: "list_all is_whole xs" using Cons.prems(1) by simp_all
  have nn: "0 \<le> sum_list (map abs xs)" by (rule sum_list_nonneg) auto
  have b: "\<bar>a\<bar> + \<bar>x\<bar> \<le> 9007199254740992" using Cons.prems(3) nn by simp
  note s = add_whole [OF Cons.prems(2) x b]
  have "\<bar>a + x\<bar> + sum_list (map abs xs) \<le> 9007199254740992" using Cons.prems(3) by simp
  then have "foldl (\<lambda>acc x. js_add (or_zero acc) (Some x)) (Some (a + x)) xs = added_from (Some (a + x)) xs"
    using xs s(2) by (intro Cons.IH)
  then show ?case by (simp add: added_from_def s(1) or_zero_def)
qed

lemma is_whole_0: "is_whole 0"
  by (simp add: is_whole_def)

lemma added_or_zero_whole:
  assumes "list_all is_whole xs" and "sum_list (map abs xs) \<le> 9007199254740992"
  shows "added_or_zero xs = Some (sum_list xs)"
proof -
  have "added_or_zero xs = added_from (Some 0) xs"
    unfolding added_or_zero_def using assms by (intro added_or_zero_from is_whole_0) simp_all
  also have "\<dots> = Some (0 + sum_list xs)" using assms by (intro added_from_whole is_whole_0) simp_all
  finally show ?thesis by simp
qed

section \<open>Properties of the sale entry form\<close>

subsection \<open>Printing and reading amounts\<close>

lemma digit_char_props:
  assumes "0 \<le> d" "d < 10"
  shows "is_digit (digit_char d)" and "digit_val (digit_char d) = d"
  using assms by (simp_all add: is_digit_def digit_val_def digit_char_def Let_def)

lemma digits_of_all: "0 \<le> n \<Longrightarrow> \<forall>c\<in>set (digits_of n). is_digit c"
proof (induction n rule: digits_of.induct)
  case (1 n)
  show ?case
  proof (cases "n < 10")
    case True
    with 1 show ?thesis by (subst digits_of.simps) (simp add: digit_char_props)
  next
    case False
    with 1 have "\<forall>c\<in>set (digits_of (n div 10)). is_digit c" by simp
    moreover have "is_digit (digit_char (n mod 10))" by (simp add: digit_char_props)
    ultimately show ?thesis using False by (subst digits_of.simps) simp
  qed
qed

lemma digits_of_nonempty: "digits_of n \<noteq> []"
  by (subst digits_of.simps) simp

lemma digits_val_snoc: "digits_val (ds @ [c]) = 10 * digits_val ds + digit_val c"
  by (simp add: digits_val_def)

lemma digits_val_digits_of: "0 \<le> n \<Longrightarrow> digits_val (digits_of n) = n"
proof (induction n rule: digits_of.induct)
  case (1 n)
  show ?case
  proof (cases "n < 10")
    case True
    with 1 show ?thesis
      by (subst digits_of.simps) (simp add: digits_val_def digit_char_props)
  next
    case False
    with 1 have "digits_val (digits_of (n div 10)) = n div 10" by simp
    then show ?thesis using False
      by (subst digits_of.simps) (simp add: digits_val_snoc digit_char_props)
  qed
qed

lemma trimStart_digit: "is_digit c \<Longrightarrow> trimStart (c # cs) = c # cs"
  by (auto simp: trimStart_def is_digit_def is_space_def Let_def)

lemma split_sign_digit: "is_digit c \<Longrightarrow> split_sign (c # cs) = (False, c # cs)"
  by (auto simp: is_digit_def Let_def)

lemma not_digit_dot: "\<not> is_digit CHR ''.''"
  by (simp add: is_digit_def)

lemma startsWith_digit: "is_digit c \<Longrightarrow> \<not> startsWith (c # cs) ''Infinity''"
  by (auto simp: is_digit_def)

lemma parseFloat_unsigned:
  assumes ne: "ds \<noteq> []" and ds: "\<forall>c\<in>set ds. is_digit c" and c1: "is_digit c1" and c0: "is_digit c0"
  shows "parseFloat (ds @ CHR ''.'' # [c1, c0]) =
    Some (to_double (of_int (digits_val ds) + of_int (10 * digit_val c1 + digit_val c0) / 100))"
proof -
  obtain d dr where d: "ds = d # dr" using ne by (cases ds) auto
  have hd: "is_digit d" using ds d by simp
  let ?s = "ds @ CHR ''.'' # [c1, c0]"
  have s: "split_sign (trimStart ?s) = (False, ?s)"
    using hd by (simp add: d trimStart_digit split_sign_digit del: split_sign.simps)
  have i: "\<not> startsWith ?s ''Infinity''" using hd by (simp add: d startsWith_digit del: startsWith.simps)
  have t: "takeWhile is_digit ?s = ds" using ds by (simp add: not_digit_dot)
  have r: "dropWhile is_digit ?s = CHR ''.'' # [c1, c0]" using ds by (simp add: not_digit_dot)
  have v: "digits_val [c1, c0] = 10 * digit_val c1 + digit_val c0" by (simp add: digits_val_def)
  show ?thesis
    using ne c1 c0
    by (simp add: parseFloat_def s i t r v exponentPart_def pow10_def del: of_int_add of_int_mult)
qed

lemma parseFloat_signed:
  assumes ne: "ds \<noteq> []" and ds: "\<forall>c\<in>set ds. is_digit c" and c1: "is_digit c1" and c0: "is_digit c0"
  shows "parseFloat (CHR ''-'' # ds @ CHR ''.'' # [c1, c0]) =
    Some (to_double (- (of_int (digits_val ds) + of_int (10 * digit_val c1 + digit_val c0) / 100)))"
proof -
  obtain d dr where d: "ds = d # dr" using ne by (cases ds) auto
  have hd: "is_digit d" using ds d by simp
  let ?s = "ds @ CHR ''.'' # [c1, c0]"
  have s: "split_sign (trimStart (CHR ''-'' # ?s)) = (True, ?s)"
    by (simp add: trimStart_def is_space_def)
  have i: "\<not> startsWith ?s ''Infinity''" using hd by (simp add: d startsWith_digit del: startsWith.simps)
  have t: "takeWhile is_digit ?s = ds" using ds by (simp add: not_digit_dot)
  have r: "dropWhile is_digit ?s = CHR ''.'' # [c1, c0]" using ds by (simp add: not_digit_dot)
  have v: "digits_val [c1, c0] = 10 * digit_val c1 + digit_val c0" by (simp add: digits_val_def)
  show ?thesis
    using ne c1 c0
    by (simp add: parseFloat_def s i t r v exponentPart_def pow10_def del: of_int_add of_int_mult)
qed

lemma cents_split:
  fixes n :: int
  shows "(of_int (n div 100) :: rat) + of_int (10 * (n mod 100 div 10) + n mod 10) / 100 = of_int n / 100"
proof -
  have m: "n mod 100 mod 10 = n mod 10" by (simp add: mod_mod_cancel)
  have "10 * (n mod 100 div 10) + n mod 100 mod 10 = n mod 100" by (rule mult_div_mod_eq)
  then have low: "10 * (n mod 100 div 10) + n mod 10 = n mod 100" by (simp only: m)
  have "(of_int n :: rat) = of_int (100 * (n div 100) + n mod 100)" by (simp only: mult_div_mod_eq)
  also have "\<dots> = 100 * of_int (n div 100) + of_int (n mod 100)"
    by (simp only: of_int_add of_int_mult of_int_numeral)
  finally have "(of_int n :: rat) / 100 = of_int (n div 100) + of_int (n mod 100) / 100"
    by (simp add: add_divide_distrib)
  then show ?thesis by (simp only: low)
qed

lemma toFixed2_digits:
  assumes "\<bar>x\<bar> < 10 ^ 21"
  shows "toFixed2 (Some x) =
    (if x < 0 then ''-'' else []) @ digits_of (\<lfloor>\<bar>x\<bar> * 100 + 1 / 2\<rfloor> div 100) @ ''.'' @
      [digit_char (\<lfloor>\<bar>x\<bar> * 100 + 1 / 2\<rfloor> mod 100 div 10), digit_char (\<lfloor>\<bar>x\<bar> * 100 + 1 / 2\<rfloor> mod 10)]"
proof -
  have "\<not> is_inf x" using assms DBL_INF_large(1) by (simp add: is_inf_def)
  moreover have "\<not> 10 ^ 21 \<le> \<bar>x\<bar>" using assms by simp
  ultimately show ?thesis by (simp only: toFixed2_def Let_def option.case if_False)
qed

lemma parseFloat_toFixed2:
  assumes small: "\<bar>x\<bar> < 10 ^ 21"
  shows "parseFloat (toFixed2 (Some x)) = Some (to_double (round2 x))"
proof -
  define n where "n = \<lfloor>\<bar>x\<bar> * 100 + 1 / 2\<rfloor>"
  have "0 \<le> \<bar>x\<bar> * 100 + 1 / 2" by simp
  then have n0: "0 \<le> n" unfolding n_def by (simp only: zero_le_floor)
  have a: "0 \<le> n div 100" using n0 by simp
  have d1: "is_digit (digit_char (n mod 100 div 10))" by (rule digit_char_props) presburger+
  have d0: "is_digit (digit_char (n mod 10))" by (rule digit_char_props) presburger+
  have v1: "digit_val (digit_char (n mod 100 div 10)) = n mod 100 div 10"
    by (rule digit_char_props) presburger+
  have v0: "digit_val (digit_char (n mod 10)) = n mod 10"
    by (rule digit_char_props) presburger+
  have tf: "toFixed2 (Some x) = (if x < 0 then ''-'' else []) @ digits_of (n div 100) @ ''.'' @
      [digit_char (n mod 100 div 10), digit_char (n mod 10)]"
    by (simp only: toFixed2_digits [OF small] n_def)
  have r2: "round2 x = (if x < 0 then - (of_int n / 100) else of_int n / 100)"
    by (simp only: round2_def n_def)
  have val: "(of_int (digits_val (digits_of (n div 100))) :: rat) +
      of_int (10 * digit_val (digit_char (n mod 100 div 10)) + digit_val (digit_char (n mod 10))) / 100
      = of_int n / 100"
    by (simp only: v1 v0 digits_val_digits_of [OF a] cents_split)
  note pu = parseFloat_unsigned [OF digits_of_nonempty digits_of_all [OF a] d1 d0]
  note ps = parseFloat_signed [OF digits_of_nonempty digits_of_all [OF a] d1 d0]
  show ?thesis
  proof (cases "x < 0")
    case True
    have "toFixed2 (Some x) = CHR ''-'' # digits_of (n div 100) @ CHR ''.'' #
        [digit_char (n mod 100 div 10), digit_char (n mod 10)]"
      using True by (simp add: tf)
    then show ?thesis using True by (simp only: ps val r2 if_True)
  next
    case False
    have "toFixed2 (Some x) = digits_of (n div 100) @ CHR ''.'' #
        [digit_char (n mod 100 div 10), digit_char (n mod 10)]"
      using False by (simp add: tf)
    then show ?thesis using False by (simp only: pu val r2 if_False)
  qed
qed

lemma floor_half: "\<lfloor>(of_int k :: rat) + 1 / 2\<rfloor> = k"
  by (rule floor_unique) simp_all

lemma round2_whole: "is_whole x \<Longrightarrow> round2 x = x"
proof -
  assume "is_whole x"
  then obtain k :: int where k: "x = of_int k" unfolding is_whole_iff ..
  have "\<bar>x\<bar> * 100 + 1 / 2 = of_int (\<bar>k\<bar> * 100) + 1 / 2" by (simp add: k)
  then have "\<lfloor>\<bar>x\<bar> * 100 + 1 / 2\<rfloor> = \<bar>k\<bar> * 100" by (simp only: floor_half)
  then have "round2 x = (if x < 0 then - (of_int (\<bar>k\<bar> * 100) / 100) else of_int (\<bar>k\<bar> * 100) / 100)"
    by (simp only: round2_def)
  then show ?thesis by (simp add: k)
qed

lemma round2_0: "round2 0 = 0"
  using round2_whole [OF is_whole_0] .

lemma round2_nonneg: "0 \<le> x \<Longrightarrow> 0 \<le> round2 x"
  by (simp add: round2_def)

lemma round2_bound:
  assumes "0 \<le> x" and "x < 10 ^ 21"
  shows "round2 x < 10 ^ 21 + 1"
proof -
  have "of_int \<lfloor>\<bar>x\<bar> * 100 + 1 / 2\<rfloor> \<le> \<bar>x\<bar> * 100 + 1 / 2" by (rule of_int_floor_le)
  then have "round2 x \<le> (x * 100 + 1 / 2) / 100" using assms(1) by (simp add: round2_def divide_right_mono)
  also have "\<dots> < 10 ^ 21 + 1" using assms(2) by simp
  finally show ?thesis .
qed

lemma toFixed2_below_half_cent:
  assumes "0 \<le> r" and "r < 1 / 200"
  shows "toFixed2 (Some r) = toFixed2 (Some 0)"
proof -
  have "\<lfloor>\<bar>r\<bar> * 100 + 1 / 2\<rfloor> = 0" using assms by (intro floor_unique) simp_all
  moreover have "\<lfloor>\<bar>0 :: rat\<bar> * 100 + 1 / 2\<rfloor> = 0" by (intro floor_unique) simp_all
  moreover have "\<bar>r\<bar> < 10 ^ 21" using assms by simp
  moreover have "\<bar>0 :: rat\<bar> < 10 ^ 21" by simp
  ultimately show ?thesis using assms(1) by (simp add: toFixed2_digits)
qed

subsection \<open>The quantity held by the form\<close>

lemma settle_quantity: "form_state.quantity (settle st) = form_state.quantity st"
proof (induction st rule: settle.induct)
  case (1 st)
  have q: "form_state.quantity (priceEffect st) = form_state.quantity st"
    by (simp add: priceEffect_def Let_def)
  show ?case
    using 1 q by (subst settle.simps) (simp add: Let_def)
qed







subsection \<open>The price effect and the submission\<close>

lemma parseFloat_Nil: "parseFloat [] = None"
  by (simp add: parseFloat_def trimStart_def)

lemma draft_total_unit_price: "draft_total st = Some t \<Longrightarrow> form_state.unitPrice st \<noteq> []"
  by (auto simp: draft_total_def js_mul_def parseFloat_Nil)

lemma draft_total_double: "draft_total st = Some t \<Longrightarrow> to_double t = t"
  unfolding draft_total_def by (rule js_mul_double)

lemma priceEffect_keeps:
  assumes "selectedProduct st = Some p"
      and "draft_total st = Some t"
      and "js_sub (Some t) (or_zero (parseFloat (discountInput st))) = Some y"
      and "0 \<le> y"
  shows "priceEffect st =
    st\<lparr>form_state.totalPriceCalculated := Some t,
       form_state.finalPriceCharged := toFixed2 (Some y)\<rparr>"
  using assms draft_total_unit_price [OF assms(2)]
  by (simp add: priceEffect_def Let_def draft_total_def js_lt_def formatCurrency_def)

lemma priceEffect_clamps:
  assumes "selectedProduct st = Some p"
      and "draft_total st = Some t"
      and "js_sub (Some t) (or_zero (parseFloat (discountInput st))) = Some y"
      and "y < 0"
  shows "priceEffect st =
    st\<lparr>form_state.totalPriceCalculated := Some t,
       discountInput := toFixed2 (Some t),
       form_state.finalPriceCharged := toFixed2 (Some 0)\<rparr>"
  using assms draft_total_unit_price [OF assms(2)]
  by (simp add: priceEffect_def Let_def draft_total_def js_lt_def formatCurrency_def)

lemma priceEffect_final:
  assumes "selectedProduct st = Some p"
      and "draft_total st = Some t"
      and "js_sub (Some t) (or_zero (parseFloat (discountInput st))) = Some y"
  shows "form_state.finalPriceCharged (priceEffect st) = toFixed2 (Some (max 0 y))"
proof (cases "y < 0")
  case True
  then show ?thesis by (simp add: priceEffect_clamps [OF assms True] max_def)
next
  case False
  then have "0 \<le> y" by simp
  then show ?thesis by (simp add: priceEffect_keeps [OF assms] max_def)
qed

lemma settle_stable: "deps (priceEffect st) = deps st \<Longrightarrow> settle st = priceEffect st"
  by (subst settle.simps) (simp add: Let_def)

lemma settle_fixed: "priceEffect st = st \<Longrightarrow> settle st = st"
  by (subst settle.simps) (simp add: Let_def)

lemma settle_keeps:
  assumes "selectedProduct st = Some p"
      and "draft_total st = Some t"
      and "js_sub (Some t) (or_zero (parseFloat (discountInput st))) = Some y"
      and "0 \<le> y"
  shows "settle st =
    st\<lparr>form_state.totalPriceCalculated := Some t,
       form_state.finalPriceCharged := toFixed2 (Some y)\<rparr>"
proof -
  note e = priceEffect_keeps [OF assms]
  have "deps (priceEffect st) = deps st" by (simp add: e deps_def)
  then show ?thesis by (simp only: settle_stable e)
qed

lemma handleSell_attempted:
  assumes "selectedProduct st = Some p"
      and "parseFloat (form_state.finalPriceCharged st) = Some f"
      and "0 \<le> f"
  shows "map_option SellData.finalPriceCharged (attempted (fst (handleSell env st))) = Some (Some f)"
    and "map_option SellData.totalPriceCalculated (attempted (fst (handleSell env st))) =
      Some (draft_total st)"
    and "map_option SellData.discount (attempted (fst (handleSell env st))) =
      Some (if js_lt (Some 0) (js_sub (draft_total st) (Some f)) then js_sub (draft_total st) (Some f)
            else Some 0)"
  using assms
  by (simp_all add: handleSell_def Let_def isNaN_def js_lt_def draft_total_def)

lemma settle_clamps:
  assumes sel: "selectedProduct st = Some p"
      and tot: "draft_total st = Some t"
      and nn: "0 \<le> t"
      and bound: "t < 10 ^ 21"
      and dif: "js_sub (Some t) (or_zero (parseFloat (discountInput st))) = Some y"
      and neg: "y < 0"
      and reread: "js_sub (Some t) (parseFloat (toFixed2 (Some t))) = Some r"
      and cents: "r < 1 / 200"
  shows "settle st =
    st\<lparr>form_state.totalPriceCalculated := Some t,
       discountInput := toFixed2 (Some t),
       form_state.finalPriceCharged := toFixed2 (Some 0)\<rparr>"
proof -
  let ?st1 = "st\<lparr>form_state.totalPriceCalculated := Some t, discountInput := toFixed2 (Some t),
       form_state.finalPriceCharged := toFixed2 (Some 0)\<rparr>"
  have e1: "priceEffect st = ?st1" by (rule priceEffect_clamps [OF sel tot dif neg])
  have sel1: "selectedProduct ?st1 = Some p" using sel by simp
  have tot1: "draft_total ?st1 = Some t" using tot by (simp add: draft_total_def)
  have small: "\<bar>t\<bar> < 10 ^ 21" using nn bound by simp
  have rd: "parseFloat (toFixed2 (Some t)) = Some (to_double (round2 t))"
    by (rule parseFloat_toFixed2 [OF small])
  have dif1: "js_sub (Some t) (or_zero (parseFloat (discountInput ?st1))) = Some r"
    using reread by (simp add: rd or_zero_def)
  have e2: "priceEffect ?st1 = ?st1"
  proof (cases "r < 0")
    case True
    show ?thesis using priceEffect_clamps [OF sel1 tot1 dif1 True] by simp
  next
    case False
    then have r0: "0 \<le> r" by simp
    have "toFixed2 (Some r) = toFixed2 (Some 0)" using r0 cents by (rule toFixed2_below_half_cent)
    then show ?thesis using priceEffect_keeps [OF sel1 tot1 dif1 r0] by simp
  qed
  have s1: "settle ?st1 = ?st1" using e2 by (rule settle_fixed)
  show ?thesis
    by (subst settle.simps) (simp add: Let_def e1 s1)
qed

lemma settle_unit_price:
  "selectedProduct (settle st) = selectedProduct st \<and> form_state.unitPrice (settle st) = form_state.unitPrice st"
proof (induction st rule: settle.induct)
  case (1 st)
  have e: "selectedProduct (priceEffect st) = selectedProduct st
      \<and> form_state.unitPrice (priceEffect st) = form_state.unitPrice st"
    by (simp add: priceEffect_def Let_def)
  show ?case
    using 1 e by (subst (1 2) settle.simps) (simp add: Let_def)
qed

lemma settle_draft_total: "draft_total (settle st) = draft_total st"
  by (simp add: draft_total_def settle_unit_price settle_quantity)

lemma step_DiscountChange:
  "discountInput st \<noteq> v \<Longrightarrow> step (DiscountChange v) st = settle (handleDiscountChange v st)"
  by (auto simp: step_def Let_def deps_def handleDiscountChange_def)

lemma whole_total:
  assumes u: "parseFloat (form_state.unitPrice st) = Some u"
      and w: "is_whole u" and u0: "0 \<le> u"
      and q: "1 \<le> form_state.quantity st" "form_state.quantity st \<le> 9007199254740992"
      and b: "u * of_int (form_state.quantity st) \<le> 9007199254740992"
  shows "draft_total st = Some (u * of_int (form_state.quantity st))"
    and "is_whole (u * of_int (form_state.quantity st))"
proof -
  let ?q = "form_state.quantity st"
  obtain k :: int where k: "u = of_int k" using w unfolding is_whole_iff ..
  have k0: "0 \<le> k" using u0 by (simp add: k)
  have qd: "to_double (of_int ?q) = of_int ?q" using q by (intro to_double_of_int) simp
  have "(of_int (k * ?q) :: rat) \<le> of_int 9007199254740992" using b by (simp add: k)
  then have kq: "k * ?q \<le> 9007199254740992" by (simp only: of_int_le_iff)
  have "k * 1 \<le> k * ?q" using k0 q(1) by (intro mult_left_mono) simp_all
  then have k53: "k \<le> 9007199254740992" using kq by simp
  have "(of_int k :: rat) \<le> of_int 9007199254740992" using k53 by (simp only: of_int_le_iff)
  then have fu: "\<not> is_inf u" using u0 DBL_INF_large(2) by (simp add: is_inf_def k)
  have "(of_int ?q :: rat) \<le> of_int 9007199254740992" using q(2) by (simp only: of_int_le_iff)
  then have fq: "\<not> is_inf (of_int ?q)" using q(1) DBL_INF_large(2) by (simp add: is_inf_def)
  have "to_double (u * of_int ?q) = to_double (of_int (k * ?q))" by (simp add: k)
  also have "\<dots> = of_int (k * ?q)" using kq k0 q(1) by (intro to_double_of_int) simp
  finally have p: "to_double (u * of_int ?q) = u * of_int ?q" by (simp add: k)
  show "draft_total st = Some (u * of_int ?q)"
    using fu fq by (simp add: draft_total_def u qd js_mul_def p)
  have "u * of_int ?q = of_int (k * ?q)" by (simp add: k)
  then show "is_whole (u * of_int ?q)" unfolding is_whole_iff ..
qed

lemma whole_difference:
  assumes "is_whole t" and "is_whole d" and "0 \<le> d" and "d \<le> t" and "t \<le> 9007199254740992"
  shows "js_sub (Some t) (Some d) = Some (t - d)" and "is_whole (t - d)"
proof -
  have m: "is_whole (- d)" using assms(2) unfolding is_whole_iff by (metis of_int_minus)
  have b: "\<bar>t\<bar> + \<bar>- d\<bar> \<le> 9007199254740992 + 9007199254740992" using assms by simp
  obtain k :: int where k: "t = of_int k" using assms(1) unfolding is_whole_iff ..
  obtain l :: int where l: "d = of_int l" using assms(2) unfolding is_whole_iff ..
  have "(of_int (k - l) :: rat) \<le> of_int 9007199254740992" "(of_int 0 :: rat) \<le> of_int (k - l)"
    using assms by (simp_all add: k l)
  then have kl: "k - l \<le> 9007199254740992" "0 \<le> k - l" by (simp_all only: of_int_le_iff)
  have fin: "\<not> is_inf t" "\<not> is_inf d" using assms DBL_INF_large(2) by (simp_all add: is_inf_def)
  have "to_double (t - d) = to_double (of_int (k - l))" by (simp add: k l)
  also have "\<dots> = of_int (k - l)" using kl by (intro to_double_of_int) simp
  finally have "to_double (t - d) = t - d" by (simp add: k l)
  then show "js_sub (Some t) (Some d) = Some (t - d)" using fin by (simp add: sub_finite)
  have "t - d = of_int (k - l)" by (simp add: k l)
  then show "is_whole (t - d)" unfolding is_whole_iff ..
qed

lemma whole_reads_back:
  assumes "is_whole t" and "0 \<le> t" and "t \<le> 9007199254740992"
  shows "js_sub (Some t) (parseFloat (toFixed2 (Some t))) = Some 0"
proof -
  have small: "\<bar>t\<bar> < 10 ^ 21" using assms by simp
  obtain k :: int where k: "t = of_int k" using assms(1) unfolding is_whole_iff ..
  have "(of_int k :: rat) \<le> of_int 9007199254740992" "(of_int 0 :: rat) \<le> of_int k"
    using assms by (simp_all add: k)
  then have "k \<le> 9007199254740992" "0 \<le> k" by (simp_all only: of_int_le_iff)
  then have "to_double (of_int k) = of_int k" by (intro to_double_of_int) simp
  then have td: "to_double t = t" by (simp add: k)
  have "parseFloat (toFixed2 (Some t)) = Some t"
    by (simp add: parseFloat_toFixed2 [OF small] round2_whole [OF assms(1)] td)
  moreover have "js_sub (Some t) (Some t) = Some 0"
    using whole_difference(1) [OF assms(1) assms(1) assms(2) order_refl assms(3)] by simp
  ultimately show ?thesis by simp
qed

subsection \<open>Example drafts\<close>

text \<open>The states the form is in after some sequences of events, starting from the mounted form.\<close>

lemma visa_twice:
  "run [SelectProduct visa_service, QuantityChange ''2''] mounted =
     initial_form\<lparr>searchTerm := ''Visa Service'', selectedProduct := Some visa_service,
       form_state.unitPrice := ''500.00'', form_state.quantity := 2,
       form_state.totalPriceCalculated := Some 1000, form_state.finalPriceCharged := ''1000.00''\<rparr>"
  by code_simp

lemma visa_small_discount:
  "run [SelectProduct visa_service, DiscountChange ''0.001''] mounted =
     initial_form\<lparr>searchTerm := ''Visa Service'', selectedProduct := Some visa_service,
       form_state.unitPrice := ''500.00'', form_state.totalPriceCalculated := Some 500,
       discountInput := ''0.001'', form_state.finalPriceCharged := ''500.00''\<rparr>"
  by code_simp

lemma visa_half_cent:
  "run [SelectProduct visa_service, DiscountChange ''499.995''] mounted =
     initial_form\<lparr>searchTerm := ''Visa Service'', selectedProduct := Some visa_service,
       form_state.unitPrice := ''500.00'', form_state.totalPriceCalculated := Some 500,
       discountInput := ''499.995'', form_state.finalPriceCharged := ''0.00''\<rparr>"
  by code_simp

lemma refund_selected:
  "run [SelectProduct negative_price_service] mounted =
     initial_form\<lparr>searchTerm := ''Refund'', selectedProduct := Some negative_price_service,
       form_state.unitPrice := ''-5.00'', form_state.totalPriceCalculated := Some (- 5),
       discountInput := ''-5.00'', form_state.finalPriceCharged := ''0.00''\<rparr>"
  by code_simp

lemma refund_no_discount:
  "run [SelectProduct negative_price_service, DiscountChange ''0''] mounted =
     initial_form\<lparr>searchTerm := ''Refund'', selectedProduct := Some negative_price_service,
       form_state.unitPrice := ''-5.00'', form_state.totalPriceCalculated := Some (- 5),
       discountInput := ''-5.00'', form_state.finalPriceCharged := ''0.00''\<rparr>"
  by code_simp

lemma visa_with_phone:
  "run [SelectProduct visa_service, QuantityChange ''2'', DiscountChange ''200'', PhoneChange ''99''] mounted =
     initial_form\<lparr>searchTerm := ''Visa Service'', selectedProduct := Some visa_service,
       form_state.unitPrice := ''500.00'', form_state.quantity := 2,
       form_state.totalPriceCalculated := Some 1000, discountInput := ''200'',
       form_state.finalPriceCharged := ''800.00'', form_state.phoneNumber := ''99''\<rparr>"
  by code_simp

subsection \<open>Final price and discount\<close>

text \<open>
  Claim C1, as amended. Take a draft with a selected product whose total, unit price times
  quantity as the form computes it in double arithmetic, is \<open>t\<close>, and whose discount input
  parses to a number \<open>d \<le> t\<close>; let \<open>y\<close> be the difference \<open>t - d\<close> as the form computes it,
  and let it be below 1e21. Once the effect has run, the final price shown is \<open>y\<close> printed
  with two decimals, and the final price read from it, which is also the one of the
  record handed to the store, is the double nearest to \<open>y\<close> rounded to the nearest
  hundredth. When the unit price and the discount are whole numbers that are not
  negative, and the quantity and the product of unit price and quantity are at most
  2^53, that final price is unit price times quantity minus discount exactly.
\<close>

theorem final_price_is_rounded_difference:
  assumes sel: "selectedProduct st = Some p"
      and tot: "draft_total st = Some t"
      and dis: "parseFloat (discountInput st) = Some d"
      and le: "d \<le> t"
      and dif: "js_sub (Some t) (Some d) = Some y"
      and bound: "y < 10 ^ 21"
  shows "form_state.finalPriceCharged (settle st) = toFixed2 (Some y)
       \<and> parseFloat (form_state.finalPriceCharged (settle st)) = Some (to_double (round2 y))
       \<and> map_option SellData.finalPriceCharged (attempted (fst (handleSell env (settle st)))) =
           Some (Some (to_double (round2 y)))
       \<and> (parseFloat (form_state.unitPrice st) = Some u \<and> is_whole u \<and> 0 \<le> u \<and> is_whole d \<and> 0 \<le> d
            \<and> 1 \<le> form_state.quantity st \<and> form_state.quantity st \<le> 9007199254740992
            \<and> u * of_int (form_state.quantity st) \<le> 9007199254740992 \<longrightarrow>
          parseFloat (form_state.finalPriceCharged (settle st)) =
            Some (u * of_int (form_state.quantity st) - d)
          \<and> map_option SellData.finalPriceCharged (attempted (fst (handleSell env (settle st)))) =
            Some (Some (u * of_int (form_state.quantity st) - d)))"
proof -
  have y0: "0 \<le> y" using le dif bound by (rule sub_nonneg)
  have dif': "js_sub (Some t) (or_zero (parseFloat (discountInput st))) = Some y"
    using dif by (simp add: dis or_zero_def)
  note s = settle_keeps [OF sel tot dif' y0]
  have small: "\<bar>y\<bar> < 10 ^ 21" using y0 bound by simp
  have shown: "form_state.finalPriceCharged (settle st) = toFixed2 (Some y)" by (simp add: s)
  have read: "parseFloat (form_state.finalPriceCharged (settle st)) = Some (to_double (round2 y))"
    by (simp only: shown parseFloat_toFixed2 [OF small])
  have sel': "selectedProduct (settle st) = Some p" using sel by (simp add: s)
  have nn: "0 \<le> to_double (round2 y)" using y0 by (intro to_double_nonneg round2_nonneg)
  have stored: "map_option SellData.finalPriceCharged (attempted (fst (handleSell env (settle st)))) =
      Some (Some (to_double (round2 y)))"
    by (rule handleSell_attempted(1) [OF sel' read nn])
  have exact: "to_double (round2 y) = u * of_int (form_state.quantity st) - d"
    if h: "parseFloat (form_state.unitPrice st) = Some u \<and> is_whole u \<and> 0 \<le> u \<and> is_whole d \<and> 0 \<le> d
            \<and> 1 \<le> form_state.quantity st \<and> form_state.quantity st \<le> 9007199254740992
            \<and> u * of_int (form_state.quantity st) \<le> 9007199254740992"
  proof -
    let ?q = "form_state.quantity st"
    have w: "draft_total st = Some (u * of_int ?q)" "is_whole (u * of_int ?q)"
      using h by (intro whole_total; simp)+
    have t: "t = u * of_int ?q" using tot w(1) by simp
    have d: "js_sub (Some t) (Some d) = Some (t - d)" "is_whole (t - d)"
      using h w(2) le by (intro whole_difference; simp add: t)+
    have y: "y = t - d" using dif d(1) by simp
    have ub: "y \<le> 9007199254740992" using h by (simp add: y t)
    have "js_sub (Some y) (Some 0) = Some (y - 0)"
      using d(2) y0 ub by (intro whole_difference(1)) (simp_all add: y is_whole_0)
    then have "to_double y = y" using js_add_double [of "Some y" "Some 0" y] by (simp add: js_sub_def)
    then show ?thesis using d(2) by (simp add: round2_whole y t)
  qed
  show ?thesis
    using shown read stored exact by auto
qed

theorem final_price_is_rounded_difference_witness:
  "selectedProduct (handleDiscountChange ''200'' (run [SelectProduct visa_service, QuantityChange ''2''] mounted))
     = Some visa_service
   \<and> draft_total (handleDiscountChange ''200'' (run [SelectProduct visa_service, QuantityChange ''2''] mounted))
     = Some 1000
   \<and> parseFloat (discountInput
        (handleDiscountChange ''200'' (run [SelectProduct visa_service, QuantityChange ''2''] mounted))) = Some 200
   \<and> (200 :: rat) \<le> 1000
   \<and> js_sub (Some 1000) (Some 200) = Some 800
   \<and> (800 :: rat) < 10 ^ 21
   \<and> parseFloat (form_state.unitPrice
        (handleDiscountChange ''200'' (run [SelectProduct visa_service, QuantityChange ''2''] mounted))) = Some 500
   \<and> form_state.quantity
        (handleDiscountChange ''200'' (run [SelectProduct visa_service, QuantityChange ''2''] mounted)) = 2
   \<and> form_state.finalPriceCharged (settle
        (handleDiscountChange ''200'' (run [SelectProduct visa_service, QuantityChange ''2''] mounted))) = ''800.00''
   \<and> parseFloat (form_state.finalPriceCharged (settle
        (handleDiscountChange ''200'' (run [SelectProduct visa_service, QuantityChange ''2''] mounted)))) = Some 800
   \<and> map_option SellData.finalPriceCharged (attempted (fst (handleSell example_env (settle
        (handleDiscountChange ''200'' (run [SelectProduct visa_service, QuantityChange ''2''] mounted))))))
       = Some (Some 800)"
proof -
  let ?st = "handleDiscountChange ''200'' (run [SelectProduct visa_service, QuantityChange ''2''] mounted)"
  have h1: "selectedProduct ?st = Some visa_service" unfolding visa_twice by code_simp
  have h2: "draft_total ?st = Some 1000" unfolding visa_twice by code_simp
  have h3: "parseFloat (discountInput ?st) = Some 200" unfolding visa_twice by code_simp
  have h4: "(200 :: rat) \<le> 1000" by simp
  have h5: "js_sub (Some 1000) (Some 200) = Some 800" by code_simp
  have h6: "(800 :: rat) < 10 ^ 21" by simp
  have u: "parseFloat (form_state.unitPrice ?st) = Some 500" unfolding visa_twice by code_simp
  have q: "form_state.quantity ?st = 2" unfolding visa_twice by code_simp
  have p: "toFixed2 (Some 800) = ''800.00''" by code_simp
  have w: "parseFloat (form_state.unitPrice ?st) = Some 500 \<and> is_whole 500 \<and> (0 :: rat) \<le> 500
      \<and> is_whole 200 \<and> (0 :: rat) \<le> 200
      \<and> 1 \<le> form_state.quantity ?st \<and> form_state.quantity ?st \<le> 9007199254740992
      \<and> 500 * of_int (form_state.quantity ?st) \<le> (9007199254740992 :: rat)"
    by (simp add: u q is_whole_def)
  have v: "500 * rat_of_int (form_state.quantity ?st) - 200 = 800" by (simp add: q)
  note t = final_price_is_rounded_difference [OF h1 h2 h3 h4 h5 h6, where env = example_env and u = 500]
  note shown = t [THEN conjunct1, unfolded p]
  note r = t [THEN conjunct2, THEN conjunct2, THEN conjunct2, rule_format, OF w, unfolded v]
  show ?thesis
    by (intro conjI) (rule h1 h2 h3 h4 h5 h6 u q shown r [THEN conjunct1] r [THEN conjunct2])+
qed

text \<open>
  Claim C1 as stated fails for a discount with more than two decimals: at unit price
  500, quantity 1 and discount input \<open>0.001\<close> the final price shown and stored is 500,
  which is neither 500 minus the discount nor that difference as the form computes it.
\<close>

theorem final_price_not_exact_counterexample:
  "selectedProduct (run [SelectProduct visa_service, DiscountChange ''0.001''] mounted) = Some visa_service
   \<and> draft_total (run [SelectProduct visa_service, DiscountChange ''0.001''] mounted) = Some 500
   \<and> form_state.quantity (run [SelectProduct visa_service, DiscountChange ''0.001''] mounted) = 1
   \<and> parseFloat (discountInput (run [SelectProduct visa_service, DiscountChange ''0.001''] mounted))
       = Some (to_double (1 / 1000))
   \<and> to_double (1 / 1000) \<le> 500
   \<and> parseFloat (form_state.finalPriceCharged
         (run [SelectProduct visa_service, DiscountChange ''0.001''] mounted)) = Some 500
   \<and> map_option SellData.finalPriceCharged (attempted (fst (handleSell example_env
         (run [SelectProduct visa_service, DiscountChange ''0.001''] mounted)))) = Some (Some 500)
   \<and> (500 :: rat) \<noteq> 500 * 1 - to_double (1 / 1000)
   \<and> Some 500 \<noteq> js_sub (Some 500) (Some (to_double (1 / 1000)))"
  unfolding visa_small_discount by code_simp

text \<open>
  A discount half a cent below the total: \<open>499.995\<close> is read as the double just above it,
  the difference to 500 lies just below half a cent, and the final price shown is
  \<open>0.00\<close>; the record handed to the store has final price 0 and discount 500.
\<close>

lemma half_cent_below_total:
  "form_state.finalPriceCharged (run [SelectProduct visa_service, DiscountChange ''499.995''] mounted) = ''0.00''
   \<and> map_option SellData.finalPriceCharged (attempted (fst (handleSell example_env
         (run [SelectProduct visa_service, DiscountChange ''499.995''] mounted)))) = Some (Some 0)
   \<and> map_option SellData.discount (attempted (fst (handleSell example_env
         (run [SelectProduct visa_service, DiscountChange ''499.995''] mounted)))) = Some (Some 500)"
  unfolding visa_half_cent by code_simp

lemma toFixed2_0: "toFixed2 (Some 0) = ''0.00''"
  by code_simp

lemma parseFloat_0: "parseFloat ''0.00'' = Some 0"
  by code_simp

text \<open>
  Claim C2, as amended. Take a draft with a selected product whose total \<open>t\<close>, unit price
  times quantity as the form computes it, is not negative and below 1e21, and whose
  discount input parses to a number greater than \<open>t\<close>; let the total differ by less than
  half a cent from what is read back from its own rendering with two decimals (it differs
  by nothing for a whole total up to 2^53). Once the effect has settled, the final price
  shown is \<open>0.00\<close> and the discount shown is the total printed with two decimals; the
  record handed to the store has final price 0, and its discount is the total. After every
  run of the effect on a draft with a selected product, the final price shown is the
  larger of 0 and total minus discount as the form computes it (the discount read as 0
  when the input is not a number), printed with two decimals.
\<close>

theorem discount_clamped_to_total:
  assumes sel: "selectedProduct st = Some p"
      and tot: "draft_total st = Some t"
      and nn: "0 \<le> t"
      and bound: "t < 10 ^ 21"
      and dis: "parseFloat (discountInput st) = Some d"
      and gt: "t < d"
      and reread: "js_sub (Some t) (parseFloat (toFixed2 (Some t))) = Some r"
      and cents: "r < 1 / 200"
  shows "form_state.finalPriceCharged (settle st) = ''0.00''
       \<and> discountInput (settle st) = toFixed2 (Some t)
       \<and> map_option SellData.finalPriceCharged (attempted (fst (handleSell env (settle st)))) =
           Some (Some 0)
       \<and> map_option SellData.discount (attempted (fst (handleSell env (settle st)))) = Some (Some t)
       \<and> map_option SellData.totalPriceCalculated (attempted (fst (handleSell env (settle st)))) =
           Some (Some t)
       \<and> (selectedProduct st' = Some p' \<and> draft_total st' = Some t'
            \<and> js_sub (Some t') (or_zero (parseFloat (discountInput st'))) = Some y' \<longrightarrow>
          form_state.finalPriceCharged (priceEffect st') = toFixed2 (Some (max 0 y')))"
proof -
  have td: "to_double t = t" using tot by (rule draft_total_double)
  have dd: "to_double d = d" using dis by (rule parseFloat_double)
  obtain y where y: "js_sub (Some t) (Some d) = Some y" and neg: "y < 0"
    using sub_doubles_negative [OF td dd gt] by auto
  have dif: "js_sub (Some t) (or_zero (parseFloat (discountInput st))) = Some y"
    using y by (simp add: dis or_zero_def)
  note s = settle_clamps [OF sel tot nn bound dif neg reread cents]
  have shown: "form_state.finalPriceCharged (settle st) = ''0.00''" by (simp add: s toFixed2_0)
  have dshown: "discountInput (settle st) = toFixed2 (Some t)" by (simp add: s)
  have read: "parseFloat (form_state.finalPriceCharged (settle st)) = Some 0"
    by (simp only: shown parseFloat_0)
  have sel': "selectedProduct (settle st) = Some p" using sel by (simp add: s)
  have z: "(0 :: rat) \<le> 0" by simp
  note a = handleSell_attempted [OF sel' read z, of env, unfolded settle_draft_total tot]
  have fin: "\<not> is_inf t" "\<not> is_inf 0" using nn bound DBL_INF_large(1) by (simp_all add: is_inf_def)
  have t0: "js_sub (Some t) (Some 0) = Some t" using sub_finite [OF fin] by (simp add: td)
  have disc: "(if js_lt (Some 0) (js_sub (Some t) (Some 0)) then js_sub (Some t) (Some 0) else Some 0) = Some t"
    using nn by (simp add: t0 js_lt_def)
  have law: "form_state.finalPriceCharged (priceEffect st') = toFixed2 (Some (max 0 y'))"
    if "selectedProduct st' = Some p' \<and> draft_total st' = Some t'
            \<and> js_sub (Some t') (or_zero (parseFloat (discountInput st'))) = Some y'"
    using that priceEffect_final [of st' p' t' y'] by simp
  show ?thesis
    using shown dshown a(1) a(2) a(3) [unfolded disc] law by simp
qed

theorem discount_clamped_to_total_witness:
  "selectedProduct (handleDiscountChange ''1200'' (run [SelectProduct visa_service, QuantityChange ''2''] mounted))
     = Some visa_service
   \<and> draft_total (handleDiscountChange ''1200'' (run [SelectProduct visa_service, QuantityChange ''2''] mounted))
     = Some 1000
   \<and> (0 :: rat) \<le> 1000 \<and> (1000 :: rat) < 10 ^ 21
   \<and> parseFloat (discountInput
       (handleDiscountChange ''1200'' (run [SelectProduct visa_service, QuantityChange ''2''] mounted)))
     = Some 1200
   \<and> (1000 :: rat) < 1200
   \<and> js_sub (Some 1000) (parseFloat (toFixed2 (Some 1000))) = Some 0
   \<and> (0 :: rat) < 1 / 200
   \<and> form_state.finalPriceCharged (settle
       (handleDiscountChange ''1200'' (run [SelectProduct visa_service, QuantityChange ''2''] mounted)))
     = ''0.00''
   \<and> discountInput (settle
       (handleDiscountChange ''1200'' (run [SelectProduct visa_service, QuantityChange ''2''] mounted)))
     = ''1000.00''
   \<and> map_option SellData.discount (attempted (fst (handleSell example_env (settle
       (handleDiscountChange ''1200'' (run [SelectProduct visa_service, QuantityChange ''2''] mounted))))))
     = Some (Some 1000)"
proof -
  let ?st = "handleDiscountChange ''1200'' (run [SelectProduct visa_service, QuantityChange ''2''] mounted)"
  have h1: "selectedProduct ?st = Some visa_service" unfolding visa_twice by code_simp
  have h2: "draft_total ?st = Some 1000" unfolding visa_twice by code_simp
  have h3: "(0 :: rat) \<le> 1000" by simp
  have h4: "(1000 :: rat) < 10 ^ 21" by simp
  have h5: "parseFloat (discountInput ?st) = Some 1200" unfolding visa_twice by code_simp
  have h6: "(1000 :: rat) < 1200" by simp
  have h7: "js_sub (Some 1000) (parseFloat (toFixed2 (Some 1000))) = Some 0" by code_simp
  have h8: "(0 :: rat) < 1 / 200" by simp
  have p: "toFixed2 (Some 1000) = ''1000.00''" by code_simp
  note t = discount_clamped_to_total [OF h1 h2 h3 h4 h5 h6 h7 h8, where env = example_env, unfolded p]
  show ?thesis
    by (intro conjI)
      (rule h1 h2 h3 h4 h5 h6 h7 h8 t [THEN conjunct1] t [THEN conjunct2, THEN conjunct1]
        t [THEN conjunct2, THEN conjunct2, THEN conjunct2, THEN conjunct1])+
qed

text \<open>
  Claim C2 as stated fails in two places. For a catalog price of -5 and an entered
  discount of 0 (which exceeds the total -5) the stored discount is 0, not the total. And
  the final price is not always the larger of 0 and total minus discount: at total 500
  and discount input \<open>0.001\<close> it is 500.
\<close>

theorem discount_clamped_counterexample:
  "draft_total (run [SelectProduct negative_price_service] mounted) = Some (- 5)
   \<and> parseFloat ''0'' = Some 0
   \<and> (- 5 :: rat) < 0
   \<and> map_option SellData.discount (attempted (fst (handleSell example_env
         (run [SelectProduct negative_price_service, DiscountChange ''0''] mounted))))
       = Some (Some 0)
   \<and> (0 :: rat) \<noteq> - 5
   \<and> draft_total (run [SelectProduct visa_service, DiscountChange ''0.001''] mounted) = Some 500
   \<and> parseFloat ''0.001'' = Some (to_double (1 / 1000))
   \<and> parseFloat (form_state.finalPriceCharged
         (run [SelectProduct visa_service, DiscountChange ''0.001''] mounted)) = Some 500
   \<and> (500 :: rat) \<noteq> max 0 (500 - to_double (1 / 1000))
   \<and> Some 500 \<noteq> js_sub (Some 500) (Some (to_double (1 / 1000)))"
  unfolding refund_selected refund_no_discount visa_small_discount by code_simp

text \<open>
  Claim C7. Submitting returns a validation error, leaving everything but the message
  unchanged and attempting no write, exactly when no product is selected or the final
  price field does not parse to a number that is at least 0. In every other case a write
  of the sale record is attempted, and its outcome is that of the store.
\<close>

theorem handleSell_validation:
  "(\<exists>text. handleSell env st = (ValidationError, st\<lparr>message := Some (Error, text)\<rparr>)) =
     (selectedProduct st = None \<or>
      (case parseFloat (form_state.finalPriceCharged st) of None \<Rightarrow> True | Some x \<Rightarrow> x < 0))
   \<and> (\<exists>data. fst (handleSell env st) = (if storeWriteOk env then WriteOk data else WriteFailed data)) =
     (\<not> (selectedProduct st = None \<or>
      (case parseFloat (form_state.finalPriceCharged st) of None \<Rightarrow> True | Some x \<Rightarrow> x < 0)))
   \<and> (fst (handleSell env st) = ValidationError) =
     (selectedProduct st = None \<or>
      (case parseFloat (form_state.finalPriceCharged st) of None \<Rightarrow> True | Some x \<Rightarrow> x < 0))"
  by (auto simp: handleSell_def Let_def isNaN_def js_lt_def split: option.splits)

text \<open>
  Claim C9. When the store write fails, the selected product, unit price, quantity,
  discount, final price, phone number, payment method and search term are what they were
  before the submission, also after the effects that follow it. Whatever the store answers,
  these fields change only when the write succeeded, and then they are reset to their
  initial values.
\<close>

theorem failed_write_keeps_form:
  assumes "\<not> storeWriteOk env"
  shows "form_fields (snd (handleSell env st)) = form_fields st
       \<and> form_fields (step (Sell env) st) = form_fields st
       \<and> ((\<exists>data. fst (handleSell env' st) = WriteOk data)
            \<or> form_fields (snd (handleSell env' st)) = form_fields st)
       \<and> ((\<forall>data. fst (handleSell env' st) \<noteq> WriteOk data)
            \<or> form_fields (snd (handleSell env' st)) = form_fields initial_form)"
proof -
  have a: "form_fields (snd (handleSell env st)) = form_fields st"
    using assms
    by (auto simp: handleSell_def Let_def form_fields_def split: option.splits)
  have b: "deps (snd (handleSell env st)) = deps st"
    using a by (simp add: form_fields_def deps_def)
  have c: "step (Sell env) st = snd (handleSell env st)"
    using b by (simp add: step_def Let_def)
  have d: "(\<exists>data. fst (handleSell env' st) = WriteOk data)
            \<or> form_fields (snd (handleSell env' st)) = form_fields st"
    by (auto simp: handleSell_def Let_def form_fields_def split: option.splits)
  have e: "(\<forall>data. fst (handleSell env' st) \<noteq> WriteOk data)
            \<or> form_fields (snd (handleSell env' st)) = form_fields initial_form"
    by (auto simp: handleSell_def Let_def form_fields_def initial_form_def sendWhatsAppMessage_def
        split: option.splits notifier_outcome.splits)
  show ?thesis using a c d e by simp
qed

theorem failed_write_keeps_form_witness:
  "\<not> storeWriteOk (example_env\<lparr>storeWriteOk := False\<rparr>)
   \<and> fst (handleSell (example_env\<lparr>storeWriteOk := False\<rparr>)
        (run [SelectProduct visa_service, QuantityChange ''2'', DiscountChange ''200'', PhoneChange ''99''] mounted))
      \<noteq> ValidationError
   \<and> form_fields (step (Sell (example_env\<lparr>storeWriteOk := False\<rparr>))
        (run [SelectProduct visa_service, QuantityChange ''2'', DiscountChange ''200'', PhoneChange ''99''] mounted))
     = form_fields
        (run [SelectProduct visa_service, QuantityChange ''2'', DiscountChange ''200'', PhoneChange ''99''] mounted)"
proof -
  have h: "\<not> storeWriteOk (example_env\<lparr>storeWriteOk := False\<rparr>)" by (simp add: example_env_def)
  have v: "fst (handleSell (example_env\<lparr>storeWriteOk := False\<rparr>)
        (run [SelectProduct visa_service, QuantityChange ''2'', DiscountChange ''200'', PhoneChange ''99''] mounted))
      \<noteq> ValidationError" unfolding visa_with_phone by code_simp
  note r = failed_write_keeps_form [OF h, THEN conjunct2, THEN conjunct1]
  show ?thesis by (intro conjI) (rule h v r)+
qed

section \<open>Properties of the sales page and the dashboard\<close>

subsection \<open>Filter values and filter controls\<close>

text \<open>
  Claim C3, as amended. On the earlier sales page, when the mode is day, month or year and
  the input of that mode is empty, the page shows today's sales: the filtered list is the
  one the mode \<open>today\<close> gives.
\<close>

theorem missing_value_shows_today:
  "value_missing st \<longrightarrow>
     filteredSales_v1 cal st =
       filter (\<lambda>sale. isToday cal (parseISO cal (SellData_v1.soldAt sale))) (sellData st)
     \<and> filteredSales_v1 cal st = filteredSales_v1 cal (st\<lparr>filter' := Today\<rparr>)"
  by (auto simp: value_missing_def filteredSales_v1_def Let_def)

theorem missing_value_shows_today_witness:
  "value_missing (page_handle (MonthInput []) (initial_page\<lparr>sellData := [sale_today_v1]\<rparr>))
   \<and> filteredSales_v1 example_calendar
         (page_handle (MonthInput []) (initial_page\<lparr>sellData := [sale_today_v1]\<rparr>))
       = filteredSales_v1 example_calendar
           ((page_handle (MonthInput []) (initial_page\<lparr>sellData := [sale_today_v1]\<rparr>))\<lparr>filter' := Today\<rparr>)"
proof -
  let ?st = "page_handle (MonthInput []) (initial_page\<lparr>sellData := [sale_today_v1]\<rparr>)"
  have h: "value_missing ?st" by (simp add: value_missing_def initial_page_def)
  note t = missing_value_shows_today [of ?st example_calendar, rule_format, OF h, THEN conjunct2]
  show ?thesis by (intro conjI) (rule h t)+
qed

text \<open>
  Claim C3 as stated fails on the earlier sales page: after the month input was cleared
  (mode month, no value), a list holding one sale made today is filtered to that sale, not
  to the empty list.
\<close>

theorem missing_value_not_empty_counterexample:
  "filter' (page_handle (MonthInput []) (initial_page\<lparr>sellData := [sale_today_v1]\<rparr>)) = Month
   \<and> selectedMonthInput (page_handle (MonthInput []) (initial_page\<lparr>sellData := [sale_today_v1]\<rparr>)) = []
   \<and> filteredSales_v1 example_calendar
         (page_handle (MonthInput []) (initial_page\<lparr>sellData := [sale_today_v1]\<rparr>))
       = [sale_today_v1]
   \<and> [sale_today_v1] \<noteq> []"
  by code_simp

text \<open>
  The later version of the page announces the empty list for a missing value in a comment
  and tests for it, but only when the flag \<open>defaultToToday\<close> is not set; the one branch
  that a missing value reaches sets the flag, so this test never succeeds and the later
  page gives today's sales as well.
\<close>

lemma later_page_guard_is_dead:
  "value_missing st \<Longrightarrow>
     filteredSales cal st =
       filter (\<lambda>sale. isToday cal (parseISO cal (SellData_v2.soldAt sale))) (sellData st)"
  by (auto simp: value_missing_def filteredSales_def Let_def)

lemma dashboard_handle_groups: "one_group_at_most st \<Longrightarrow> one_group_at_most (dashboard_handle a st)"
  by (cases a)
    (auto simp: one_group_at_most_def calendar_group_def week_group_def range_group_def
      handleFilterReset_def Let_def split: option.splits)

lemma dashboard_run_groups: "one_group_at_most st \<Longrightarrow> one_group_at_most (dashboard_run acts st)"
  unfolding dashboard_run_def by (induction acts arbitrary: st) (simp_all add: dashboard_handle_groups)

lemma page_handle_inputs: "page_inputs_match st \<Longrightarrow> page_inputs_match (page_handle a st)"
  by (cases a) (auto simp: page_inputs_match_def handleFilterChange_def)

lemma page_run_inputs: "page_inputs_match st \<Longrightarrow> page_inputs_match (page_run acts st)"
  unfolding page_run_def by (induction acts arbitrary: st) (simp_all add: page_handle_inputs)

text \<open>
  Claim C8, as amended. On the dashboard the inputs form three groups: month, year and
  day; the week; the custom date range. Selecting a month, a year or a day clears the week
  and the date range (a month or a year resets the day as well, and leaves the other of
  the two); selecting a week clears month, year, day and the range; picking a start or an
  end date clears month, year, day and week; the reset clears everything. So in every state
  reached from the initial one at most one group holds a value. On the sales page a mode
  button clears the three inputs, an input sets its own mode and clears the two others,
  and in every state reached only the input of the selected mode can hold a value.
\<close>

theorem filter_groups_exclusive:
  "\<not> week_group (dashboard_handle (MonthSelect v) st) \<and> \<not> range_group (dashboard_handle (MonthSelect v) st)
   \<and> filteredDay (dashboard_handle (MonthSelect v) st) = ''All''
   \<and> \<not> week_group (dashboard_handle (YearSelect v) st) \<and> \<not> range_group (dashboard_handle (YearSelect v) st)
   \<and> filteredDay (dashboard_handle (YearSelect v) st) = ''All''
   \<and> \<not> week_group (dashboard_handle (DaySelect v) st) \<and> \<not> range_group (dashboard_handle (DaySelect v) st)
   \<and> \<not> calendar_group (dashboard_handle (WeekSelect v) st) \<and> \<not> range_group (dashboard_handle (WeekSelect v) st)
   \<and> \<not> calendar_group (dashboard_handle (StartDatePick d) st) \<and> \<not> week_group (dashboard_handle (StartDatePick d) st)
   \<and> \<not> calendar_group (dashboard_handle (EndDatePick d) st) \<and> \<not> week_group (dashboard_handle (EndDatePick d) st)
   \<and> \<not> isFilterActive (dashboard_handle ResetFilters st)
   \<and> one_group_at_most (dashboard_run acts initial_dashboard)
   \<and> selectedDateInput (handleFilterChange m ps) = [] \<and> selectedMonthInput (handleFilterChange m ps) = []
   \<and> selectedYearInput (handleFilterChange m ps) = [] \<and> filter' (handleFilterChange m ps) = m
   \<and> page_inputs_match (page_handle (DayInput v) ps) \<and> page_inputs_match (page_handle (MonthInput v) ps)
   \<and> page_inputs_match (page_handle (YearInput v) ps)
   \<and> page_inputs_match (page_run pacts (initial_page :: 'a page_state))"
proof -
  have i: "one_group_at_most initial_dashboard"
    by (simp add: one_group_at_most_def calendar_group_def week_group_def range_group_def
        initial_dashboard_def)
  have p: "page_inputs_match (initial_page :: 'a page_state)"
    by (simp add: page_inputs_match_def initial_page_def)
  show ?thesis
    using dashboard_run_groups [OF i, of acts] page_run_inputs [OF p, of pacts]
    by (auto simp: calendar_group_def week_group_def range_group_def isFilterActive_def
        handleFilterReset_def handleFilterChange_def page_inputs_match_def Let_def
        split: option.splits)
qed

theorem filter_groups_exclusive_witness:
  "one_group_at_most
     (dashboard_run [YearSelect ''2024'', MonthSelect ''January'', WeekSelect ''This Week''] initial_dashboard)
   \<and> \<not> calendar_group (dashboard_handle (WeekSelect ''This Week'')
        (dashboard_run [YearSelect ''2024'', MonthSelect ''January''] initial_dashboard))
   \<and> page_inputs_match (page_run [MonthInput ''2024-01'', DayInput ''2024-01-15'']
        (initial_page :: SellData_v2 page_state))"
  using filter_groups_exclusive
    [where v = "''This Week''"
       and st = "dashboard_run [YearSelect ''2024'', MonthSelect ''January''] initial_dashboard"
       and d = None
       and acts = "[YearSelect ''2024'', MonthSelect ''January'', WeekSelect ''This Week'']"
       and m = Today
       and ps = "initial_page :: SellData_v2 page_state"
       and pacts = "[MonthInput ''2024-01'', DayInput ''2024-01-15'']"]
  by blast

text \<open>
  Claim C8 as stated fails on the dashboard: after a year was selected, selecting a month
  leaves the year in place, so two filter inputs are active together.
\<close>

theorem month_keeps_year_counterexample:
  "filteredYear (dashboard_run [YearSelect ''2024'', MonthSelect ''January''] initial_dashboard) = ''2024''
   \<and> filteredMonth (dashboard_run [YearSelect ''2024'', MonthSelect ''January''] initial_dashboard) = ''January''
   \<and> ''2024'' \<noteq> ''All'' \<and> ''January'' \<noteq> ''All''"
  by code_simp


subsection \<open>Objects as lists of their own properties\<close>

lemma map_of_assign: "map_of (assign k v acc) = (map_of acc)(k \<mapsto> v)"
  by (induction acc) (auto simp: fun_eq_iff)

lemma keys_assign: "map fst (assign k v acc) = (if k \<in> fst ` set acc then map fst acc else map fst acc @ [k])"
proof (induction acc)
  case Nil
  show ?case by simp
next
  case (Cons p acc)
  obtain k' v' where p: "p = (k', v')" by (cases p)
  show ?case
  proof (cases "k' = k")
    case True
    then show ?thesis by (simp add: p)
  next
    case False
    then show ?thesis using Cons by (simp add: p)
  qed
qed


lemma map_of_bump:
  "map_of (bump k nm qty acc) =
     (map_of acc)(k \<mapsto>
        (case map_of acc k of
           None \<Rightarrow> \<lparr>ProductQuantity.name = nm, ProductQuantity.quantity = Some qty\<rparr>
         | Some v \<Rightarrow> v\<lparr>ProductQuantity.quantity := js_add (ProductQuantity.quantity v) (Some qty)\<rparr>))"
  by (induction acc) (auto simp: fun_eq_iff)

lemma keys_bump: "map fst (bump k nm qty acc) = (if k \<in> fst ` set acc then map fst acc else map fst acc @ [k])"
proof (induction acc)
  case Nil
  show ?case by simp
next
  case (Cons p acc)
  obtain k' v' where p: "p = (k', v')" by (cases p)
  show ?case
  proof (cases "k' = k")
    case True
    then show ?thesis by (simp add: p)
  next
    case False
    then show ?thesis using Cons by (simp add: p)
  qed
qed

lemma filter_none: "k \<notin> f ` set xs \<Longrightarrow> filter (\<lambda>s. f s = k) xs = []"
  by (auto simp: filter_empty_conv)

lemma filter_some: "k \<in> f ` set xs \<Longrightarrow> filter (\<lambda>s. f s = k) xs \<noteq> []"
  by (auto simp: filter_empty_conv)


lemma set_objectValues: "set (objectValues obj) = snd ` set obj"
  by (auto simp: objectValues_def)

lemma sum_list_insort:
  fixes h :: "'a \<Rightarrow> 'b::comm_monoid_add"
  shows "sum_list (map h (insort_key f x xs)) = h x + sum_list (map h xs)"
  by (induction xs) (simp_all add: add.left_commute)

lemma sum_list_sort:
  fixes h :: "'a \<Rightarrow> 'b::comm_monoid_add"
  shows "sum_list (map h (sort_key f xs)) = sum_list (map h xs)"
  by (induction xs) (simp_all add: sum_list_insort)

lemma sum_list_split:
  fixes h :: "'a \<Rightarrow> 'b::comm_monoid_add"
  shows "sum_list (map h (filter P xs)) + sum_list (map h (filter (\<lambda>x. \<not> P x) xs)) = sum_list (map h xs)"
  by (induction xs) (simp_all add: add.left_commute add.assoc)

lemma sum_objectValues:
  fixes h :: "'v \<Rightarrow> 'b::comm_monoid_add"
  shows "sum_list (map h (objectValues obj)) = sum_list (map (h \<circ> snd) obj)"
proof -
  have "sum_list (map h (objectValues obj)) =
      sum_list (map (h \<circ> snd) (filter (\<lambda>p. is_array_index (fst p)) obj)) +
      sum_list (map (h \<circ> snd) (filter (\<lambda>p. \<not> is_array_index (fst p)) obj))"
    by (simp add: objectValues_def sum_list_sort)
  then show ?thesis by (simp only: sum_list_split)
qed

subsection \<open>Groups of the sales pages\<close>

lemma added_from_snoc: "added_from a (xs @ [x]) = js_add (added_from a xs) (Some x)"
  by (simp add: added_from_def)

lemma added_or_zero_snoc: "added_or_zero (xs @ [x]) = js_add (or_zero (added_or_zero xs)) (Some x)"
  by (simp add: added_or_zero_def)

lemma hd_tl_snoc: "xs \<noteq> [] \<Longrightarrow> hd (xs @ [x]) = hd xs \<and> tl (xs @ [x]) = tl xs @ [x]"
  by (cases xs) simp_all

lemma distinct_productCount: "distinct (map fst (productCount sales))"
proof (induction sales rule: rev_induct)
  case Nil
  show ?case by (simp add: productCount_def)
next
  case (snoc x xs)
  have "productCount (xs @ [x]) = countSale (productCount xs) x" by (simp add: productCount_def)
  then show ?case using snoc by (auto simp: countSale_def Let_def keys_bump)
qed

lemma distinct_productCount_v1: "distinct (map fst (productCount_v1 sales))"
proof (induction sales rule: rev_induct)
  case Nil
  show ?case by (simp add: productCount_v1_def)
next
  case (snoc x xs)
  have "productCount_v1 (xs @ [x]) = countSale_v1 (productCount_v1 xs) x" by (simp add: productCount_v1_def)
  then show ?case using snoc by (auto simp: countSale_v1_def keys_bump)
qed

lemma map_of_productCount:
  "map_of (productCount sales) k =
     (if k \<in> SellData_v2.productId ` set sales \<and> k \<notin> set objectPrototypeKeys then
        Some \<lparr>ProductQuantity.name =
                SellData_v2.name (hd (filter (\<lambda>s. SellData_v2.productId s = k) sales)),
              ProductQuantity.quantity =
                added_from (Some (counted_quantity (hd (filter (\<lambda>s. SellData_v2.productId s = k) sales))))
                  (map counted_quantity (tl (filter (\<lambda>s. SellData_v2.productId s = k) sales)))\<rparr>
      else None)"
proof (induction sales rule: rev_induct)
  case Nil
  show ?case by (simp add: productCount_def)
next
  case (snoc x xs)
  have step: "productCount (xs @ [x]) = countSale (productCount xs) x" by (simp add: productCount_def)
  show ?case
  proof (cases "SellData_v2.productId x = k")
    case True
    show ?thesis
    proof (cases "k \<in> set objectPrototypeKeys")
      case inherited: True
      then show ?thesis using snoc True by (simp add: step countSale_def Let_def)
    next
      case own: False
      show ?thesis
      proof (cases "k \<in> SellData_v2.productId ` set xs")
        case present: True
        then show ?thesis
          using snoc True own filter_some [OF present]
          by (simp add: step countSale_def Let_def map_of_bump hd_tl_snoc added_from_snoc
              counted_quantity_def)
      next
        case absent: False
        then show ?thesis
          using snoc True own filter_none [OF absent]
          by (simp add: step countSale_def Let_def map_of_bump added_from_def counted_quantity_def)
      qed
    qed
  next
    case False
    then show ?thesis
      using snoc by (simp add: step countSale_def Let_def map_of_bump)
  qed
qed

lemma map_of_productCount_v1:
  "map_of (productCount_v1 sales) k =
     (if k \<in> SellData_v1.productId ` set sales \<and> k \<notin> set objectPrototypeKeys then
        Some \<lparr>ProductQuantity.name =
                SellData_v1.name (hd (filter (\<lambda>s. SellData_v1.productId s = k) sales)),
              ProductQuantity.quantity =
                added_from (Some 1) (map (\<lambda>s. 1) (tl (filter (\<lambda>s. SellData_v1.productId s = k) sales)))\<rparr>
      else None)"
proof (induction sales rule: rev_induct)
  case Nil
  show ?case by (simp add: productCount_v1_def)
next
  case (snoc x xs)
  have step: "productCount_v1 (xs @ [x]) = countSale_v1 (productCount_v1 xs) x"
    by (simp add: productCount_v1_def)
  show ?case
  proof (cases "SellData_v1.productId x = k")
    case True
    show ?thesis
    proof (cases "k \<in> set objectPrototypeKeys")
      case inherited: True
      then show ?thesis using snoc True by (simp add: step countSale_v1_def)
    next
      case own: False
      show ?thesis
      proof (cases "k \<in> SellData_v1.productId ` set xs")
        case present: True
        then show ?thesis
          using snoc True own filter_some [OF present]
          by (simp add: step countSale_v1_def map_of_bump hd_tl_snoc added_from_snoc)
      next
        case absent: False
        then show ?thesis
          using snoc True own filter_none [OF absent]
          by (simp add: step countSale_v1_def map_of_bump added_from_def)
      qed
    qed
  next
    case False
    then show ?thesis
      using snoc by (simp add: step countSale_v1_def map_of_bump)
  qed
qed

lemma added_from_hd_tl:
  assumes "xs \<noteq> []" and "list_all is_whole xs" and "sum_list (map abs xs) \<le> 9007199254740992"
  shows "added_from (Some (hd xs)) (tl xs) = Some (sum_list xs)"
proof -
  obtain y ys where x: "xs = y # ys" using assms(1) by (cases xs) auto
  have "added_from (Some y) ys = Some (y + sum_list ys)"
    using assms(2) assms(3) by (intro added_from_whole) (simp_all add: x)
  then show ?thesis by (simp add: x)
qed

subsection \<open>Groups of the dashboard report\<close>

lemma fst_addToProductMap:
  "fst (addToProductMap acc sell) =
     (if SellRecord.name sell = ''__proto__'' then fst acc
      else
        assign (SellRecord.name sell)
          \<lparr>ProductReportItem.name = SellRecord.name sell,
           totalQuantity =
             js_add (or_zero (case map_of (fst acc) (SellRecord.name sell) of None \<Rightarrow> None
                              | Some it \<Rightarrow> totalQuantity it))
               (Some (SellRecord.quantity sell)),
           totalAmount =
             js_add (or_zero (case map_of (fst acc) (SellRecord.name sell) of None \<Rightarrow> None
                              | Some it \<Rightarrow> totalAmount it))
               (Some (SellRecord.finalPriceCharged sell)),
           totalDiscount =
             js_add (or_zero (case map_of (fst acc) (SellRecord.name sell) of None \<Rightarrow> None
                              | Some it \<Rightarrow> totalDiscount it))
               (Some (SellRecord.discount sell))\<rparr>
          (fst acc))"
  by (simp add: addToProductMap_def Let_def)

lemma productMap_snoc: "productMap (xs @ [x]) = addToProductMap (productMap xs) x"
  by (simp add: productMap_def)

lemma distinct_productMap: "distinct (map fst (fst (productMap data)))"
proof (induction data rule: rev_induct)
  case Nil
  show ?case by (simp add: productMap_def)
next
  case (snoc x xs)
  then show ?case by (auto simp: productMap_snoc fst_addToProductMap keys_assign)
qed

lemma added_or_zero_one: "added_or_zero [x] = js_add (Some 0) (Some x)"
  by (simp add: added_or_zero_def or_zero_def)

lemma map_of_productMap:
  "map_of (fst (productMap data)) k =
     (if k \<in> SellRecord.name ` set data \<and> k \<noteq> ''__proto__'' then
        Some \<lparr>ProductReportItem.name = k,
              totalQuantity =
                added_or_zero (map SellRecord.quantity (filter (\<lambda>s. SellRecord.name s = k) data)),
              totalAmount =
                added_or_zero (map SellRecord.finalPriceCharged (filter (\<lambda>s. SellRecord.name s = k) data)),
              totalDiscount =
                added_or_zero (map SellRecord.discount (filter (\<lambda>s. SellRecord.name s = k) data))\<rparr>
      else None)"
proof (induction data rule: rev_induct)
  case Nil
  show ?case by (simp add: productMap_def)
next
  case (snoc x xs)
  show ?case
  proof (cases "SellRecord.name x = k")
    case True
    show ?thesis
    proof (cases "k = ''__proto__''")
      case proto: True
      then show ?thesis using snoc True by (simp add: productMap_snoc fst_addToProductMap)
    next
      case own: False
      show ?thesis
      proof (cases "k \<in> SellRecord.name ` set xs")
        case present: True
        then show ?thesis
          using snoc True own
          by (simp add: productMap_snoc fst_addToProductMap map_of_assign added_or_zero_snoc)
      next
        case absent: False
        then show ?thesis
          using snoc True own filter_none [OF absent]
          by (simp add: productMap_snoc fst_addToProductMap map_of_assign added_or_zero_one or_zero_def)
      qed
    qed
  next
    case False
    then show ?thesis
      using snoc by (simp add: productMap_snoc fst_addToProductMap map_of_assign)
  qed
qed

lemma whole_filter: "list_all is_whole (map f xs) \<Longrightarrow> list_all is_whole (map f (filter P xs))"
  by (simp add: list_all_iff)

lemma abs_sum_filter:
  fixes f :: "'a \<Rightarrow> rat"
  shows "sum_list (map abs (map f (filter P xs))) \<le> sum_list (map abs (map f xs))"
  by (induction xs) auto

text \<open>
  Claim C5, as amended. The dashboard report has one group for each product name other than
  \<open>__proto__\<close>; its quantity is the sum of the quantity fields of the records with that
  name, added in the order of the list in double arithmetic (amount and discount
  likewise). The later sales page has one group for each product id that is not a property
  name of \<open>Object.prototype\<close>; its quantity is the like sum over the records with that id
  of the quantity field, a quantity of 0 counting as 1. The earlier sales page, whose
  records carry no quantity, adds 1 for each record with that id. Each of these sums is the
  exact sum when the numbers added are whole and their absolute values add up to at most
  2^53; the count of the earlier page is the number of records when that is at most 2^53.
  The lists shown hold exactly these groups.
\<close>

theorem rollup_quantities:
  "map_of (fst (productMap data)) nm =
     (if nm \<in> SellRecord.name ` set data \<and> nm \<noteq> ''__proto__'' then
        Some \<lparr>ProductReportItem.name = nm,
              totalQuantity =
                added_or_zero (map SellRecord.quantity (filter (\<lambda>s. SellRecord.name s = nm) data)),
              totalAmount =
                added_or_zero (map SellRecord.finalPriceCharged (filter (\<lambda>s. SellRecord.name s = nm) data)),
              totalDiscount =
                added_or_zero (map SellRecord.discount (filter (\<lambda>s. SellRecord.name s = nm) data))\<rparr>
      else None)
   \<and> (list_all is_whole (map SellRecord.quantity (filter (\<lambda>s. SellRecord.name s = nm) data))
        \<and> sum_list (map abs (map SellRecord.quantity (filter (\<lambda>s. SellRecord.name s = nm) data)))
            \<le> 9007199254740992 \<longrightarrow>
      added_or_zero (map SellRecord.quantity (filter (\<lambda>s. SellRecord.name s = nm) data)) =
        Some (sum_list (map SellRecord.quantity (filter (\<lambda>s. SellRecord.name s = nm) data))))
   \<and> distinct (map fst (fst (productMap data)))
   \<and> map_of (productCount sales) pid =
     (if pid \<in> SellData_v2.productId ` set sales \<and> pid \<notin> set objectPrototypeKeys then
        Some \<lparr>ProductQuantity.name =
                SellData_v2.name (hd (filter (\<lambda>s. SellData_v2.productId s = pid) sales)),
              ProductQuantity.quantity =
                added_from (Some (counted_quantity (hd (filter (\<lambda>s. SellData_v2.productId s = pid) sales))))
                  (map counted_quantity (tl (filter (\<lambda>s. SellData_v2.productId s = pid) sales)))\<rparr>
      else None)
   \<and> (pid \<in> SellData_v2.productId ` set sales
        \<and> list_all is_whole (map counted_quantity (filter (\<lambda>s. SellData_v2.productId s = pid) sales))
        \<and> sum_list (map abs (map counted_quantity (filter (\<lambda>s. SellData_v2.productId s = pid) sales)))
            \<le> 9007199254740992 \<longrightarrow>
      added_from (Some (counted_quantity (hd (filter (\<lambda>s. SellData_v2.productId s = pid) sales))))
        (map counted_quantity (tl (filter (\<lambda>s. SellData_v2.productId s = pid) sales))) =
        Some (sum_list (map counted_quantity (filter (\<lambda>s. SellData_v2.productId s = pid) sales))))
   \<and> distinct (map fst (productCount sales))
   \<and> map_of (productCount_v1 earlier) pid =
     (if pid \<in> SellData_v1.productId ` set earlier \<and> pid \<notin> set objectPrototypeKeys then
        Some \<lparr>ProductQuantity.name =
                SellData_v1.name (hd (filter (\<lambda>s. SellData_v1.productId s = pid) earlier)),
              ProductQuantity.quantity =
                added_from (Some 1) (map (\<lambda>s. 1) (tl (filter (\<lambda>s. SellData_v1.productId s = pid) earlier)))\<rparr>
      else None)
   \<and> (pid \<in> SellData_v1.productId ` set earlier
        \<and> int (length (filter (\<lambda>s. SellData_v1.productId s = pid) earlier)) \<le> 9007199254740992 \<longrightarrow>
      added_from (Some 1) (map (\<lambda>s. 1) (tl (filter (\<lambda>s. SellData_v1.productId s = pid) earlier))) =
        Some (of_nat (length (filter (\<lambda>s. SellData_v1.productId s = pid) earlier))))
   \<and> distinct (map fst (productCount_v1 earlier))
   \<and> set (aggregatedProductSales cal st) = snd ` set (fst (productMap (filteredSells cal st)))
   \<and> set (productQuantities sales) = snd ` set (productCount sales)
   \<and> set (productQuantities_v1 earlier) = snd ` set (productCount_v1 earlier)"
proof -
  let ?g = "filter (\<lambda>s. SellRecord.name s = nm) data"
  let ?g2 = "filter (\<lambda>s. SellData_v2.productId s = pid) sales"
  let ?g1 = "filter (\<lambda>s. SellData_v1.productId s = pid) earlier"
  have e0: "added_or_zero (map SellRecord.quantity ?g) = Some (sum_list (map SellRecord.quantity ?g))"
    if "list_all is_whole (map SellRecord.quantity ?g)
        \<and> sum_list (map abs (map SellRecord.quantity ?g)) \<le> 9007199254740992"
    using that by (intro added_or_zero_whole) simp_all
  have e2: "added_from (Some (counted_quantity (hd ?g2))) (map counted_quantity (tl ?g2)) =
      Some (sum_list (map counted_quantity ?g2))"
    if h: "pid \<in> SellData_v2.productId ` set sales
        \<and> list_all is_whole (map counted_quantity ?g2)
        \<and> sum_list (map abs (map counted_quantity ?g2)) \<le> 9007199254740992"
  proof -
    have ne: "?g2 \<noteq> []" using h by (intro filter_some) simp
    then have ne': "map counted_quantity ?g2 \<noteq> []" by simp
    show ?thesis
      using added_from_hd_tl [OF ne'] h ne by (simp add: hd_map map_tl)
  qed
  have e1: "added_from (Some 1) (map (\<lambda>s. 1) (tl ?g1)) = Some (of_nat (length ?g1))"
    if h: "pid \<in> SellData_v1.productId ` set earlier \<and> int (length ?g1) \<le> 9007199254740992"
  proof -
    have ne: "?g1 \<noteq> []" using h by (intro filter_some) simp
    then have ne': "map (\<lambda>s. 1 :: rat) ?g1 \<noteq> []" by simp
    have w: "list_all is_whole (map (\<lambda>s. 1 :: rat) ?g1)" by (simp add: list_all_iff is_whole_def)
    have "(of_int (int (length ?g1)) :: rat) \<le> of_int 9007199254740992"
      using h by (simp only: of_int_le_iff)
    then have b: "sum_list (map abs (map (\<lambda>s. 1 :: rat) ?g1)) \<le> 9007199254740992"
      by (simp add: sum_list_triv o_def)
    show ?thesis
      using added_from_hd_tl [OF ne' w b] ne by (simp add: hd_map map_tl sum_list_triv)
  qed
  have lists: "set (aggregatedProductSales cal st) = snd ` set (fst (productMap (filteredSells cal st)))
      \<and> set (productQuantities sales) = snd ` set (productCount sales)
      \<and> set (productQuantities_v1 earlier) = snd ` set (productCount_v1 earlier)"
    by (simp add: aggregatedProductSales_def productQuantities_def productQuantities_v1_def
        set_objectValues)
  show ?thesis
    using e0 e1 e2 lists
    by (simp only: map_of_productMap map_of_productCount map_of_productCount_v1 distinct_productMap
        distinct_productCount distinct_productCount_v1 simp_thms) blast
qed

theorem rollup_quantities_witness:
  "list_all is_whole (map SellRecord.quantity (filter (\<lambda>s. SellRecord.name s = ''A'') whole_sales))
   \<and> sum_list (map abs (map SellRecord.quantity (filter (\<lambda>s. SellRecord.name s = ''A'') whole_sales)))
        \<le> 9007199254740992
   \<and> added_or_zero (map SellRecord.quantity (filter (\<lambda>s. SellRecord.name s = ''A'') whole_sales)) = Some 2
   \<and> ''svc-1'' \<in> SellData_v2.productId ` set [sale_of_three, sale_without_quantity]
   \<and> list_all is_whole
        (map counted_quantity
          (filter (\<lambda>s. SellData_v2.productId s = ''svc-1'') [sale_of_three, sale_without_quantity]))
   \<and> sum_list (map abs (map counted_quantity
          (filter (\<lambda>s. SellData_v2.productId s = ''svc-1'') [sale_of_three, sale_without_quantity])))
        \<le> 9007199254740992
   \<and> added_from
        (Some (counted_quantity
          (hd (filter (\<lambda>s. SellData_v2.productId s = ''svc-1'') [sale_of_three, sale_without_quantity]))))
        (map counted_quantity
          (tl (filter (\<lambda>s. SellData_v2.productId s = ''svc-1'') [sale_of_three, sale_without_quantity])))
      = Some 4
   \<and> ''svc-1'' \<in> SellData_v1.productId ` set [sale_today_v1, sale_today_v1]
   \<and> int (length (filter (\<lambda>s. SellData_v1.productId s = ''svc-1'') [sale_today_v1, sale_today_v1]))
        \<le> 9007199254740992
   \<and> added_from (Some 1)
        (map (\<lambda>s. 1) (tl (filter (\<lambda>s. SellData_v1.productId s = ''svc-1'') [sale_today_v1, sale_today_v1])))
      = Some 2"
proof -
  let ?g = "filter (\<lambda>s. SellRecord.name s = ''A'') whole_sales"
  let ?g2 = "filter (\<lambda>s. SellData_v2.productId s = ''svc-1'') [sale_of_three, sale_without_quantity]"
  let ?g1 = "filter (\<lambda>s. SellData_v1.productId s = ''svc-1'') [sale_today_v1, sale_today_v1]"
  have a1: "list_all is_whole (map SellRecord.quantity ?g)" by code_simp
  have a2: "sum_list (map abs (map SellRecord.quantity ?g)) \<le> 9007199254740992" by code_simp
  have a3: "sum_list (map SellRecord.quantity ?g) = 2" by code_simp
  have b1: "''svc-1'' \<in> SellData_v2.productId ` set [sale_of_three, sale_without_quantity]" by code_simp
  have b2: "list_all is_whole (map counted_quantity ?g2)" by code_simp
  have b3: "sum_list (map abs (map counted_quantity ?g2)) \<le> 9007199254740992" by code_simp
  have b4: "sum_list (map counted_quantity ?g2) = 4" by code_simp
  have c1: "''svc-1'' \<in> SellData_v1.productId ` set [sale_today_v1, sale_today_v1]" by code_simp
  have c2: "int (length ?g1) \<le> 9007199254740992" by code_simp
  have c3: "(of_nat (length ?g1) :: rat) = 2" by code_simp
  note t = rollup_quantities [where nm = "''A''" and data = whole_sales and pid = "''svc-1''"
      and sales = "[sale_of_three, sale_without_quantity]" and earlier = "[sale_today_v1, sale_today_v1]"]
  note r0 = t [THEN conjunct2, THEN conjunct1, rule_format, OF conjI [OF a1 a2], unfolded a3]
  note r2 = t [THEN conjunct2, THEN conjunct2, THEN conjunct2, THEN conjunct2, THEN conjunct1,
      rule_format, OF conjI [OF b1 conjI [OF b2 b3]], unfolded b4]
  note r1 = t [THEN conjunct2, THEN conjunct2, THEN conjunct2, THEN conjunct2, THEN conjunct2,
      THEN conjunct2, THEN conjunct2, THEN conjunct1, rule_format, OF conjI [OF c1 c2], unfolded c3]
  show ?thesis
    by (intro conjI) (rule a1 a2 r0 b1 b2 b3 r2 c1 c2 r1)+
qed

text \<open>
  Claim C5 as stated fails on the sales pages: a record whose quantity is 0 (the value
  given to a record that carries none) is reported with quantity 1 by the later page, and
  the earlier page reports the number of records.
\<close>

theorem rollup_counts_missing_quantity_counterexample:
  "productQuantities [sale_without_quantity] =
     [\<lparr>ProductQuantity.name = ''Visa Service'', ProductQuantity.quantity = Some 1\<rparr>]
   \<and> sum_list (map SellData_v2.quantity [sale_without_quantity]) = 0
   \<and> Some (1 :: rat) \<noteq> Some 0
   \<and> productQuantities_v1 [sale_today_v1, sale_today_v1] =
     [\<lparr>ProductQuantity.name = ''Visa Service'', ProductQuantity.quantity = Some 2\<rparr>]"
  by code_simp

subsection \<open>Revenue by product and in total\<close>

lemma sum_list_delta:
  fixes c :: "'b::comm_monoid_add"
  shows "distinct K \<Longrightarrow> a \<in> set K \<Longrightarrow> sum_list (map (\<lambda>k. if a = k then c else 0) K) = c"
proof (induction K)
  case Nil
  then show ?case by simp
next
  case (Cons k K)
  show ?case
  proof (cases "a = k")
    case True
    then have "a \<notin> set K" using Cons.prems by simp
    then have "map (\<lambda>x. if a = x then c else 0) K = map (\<lambda>x. 0) K" by (intro map_cong) auto
    then have "sum_list (map (\<lambda>x. if a = x then c else 0) K) = 0" by (simp only: sum_list_0)
    then show ?thesis using True by simp
  next
    case False
    then show ?thesis using Cons by simp
  qed
qed

lemma sum_groups:
  fixes h :: "'a \<Rightarrow> rat"
  assumes "distinct K" and "key ` set xs \<subseteq> set K"
  shows "sum_list (map (\<lambda>k. sum_list (map h (filter (\<lambda>s. key s = k) xs))) K) = sum_list (map h xs)"
  using assms(2)
proof (induction xs)
  case Nil
  show ?case by simp
next
  case (Cons s xs)
  have mem: "key s \<in> set K" using Cons.prems by simp
  have "sum_list (map (\<lambda>k. sum_list (map h (filter (\<lambda>s. key s = k) (s # xs)))) K) =
      sum_list (map (\<lambda>k. (if key s = k then h s else 0) +
        sum_list (map h (filter (\<lambda>s. key s = k) xs))) K)"
    by (intro arg_cong [where f = sum_list] map_cong) auto
  also have "\<dots> = sum_list (map (\<lambda>k. if key s = k then h s else 0) K) +
      sum_list (map (\<lambda>k. sum_list (map h (filter (\<lambda>s. key s = k) xs))) K)"
    by (rule sum_list_addf)
  also have "\<dots> = h s + sum_list (map h xs)"
    using Cons sum_list_delta [OF assms(1) mem, of "h s"] by simp
  finally show ?case by simp
qed

lemma is_whole_sum_list: "list_all is_whole xs \<Longrightarrow> is_whole (sum_list xs)"
proof (induction xs)
  case Nil
  show ?case by (simp add: is_whole_0)
next
  case (Cons x xs)
  then obtain k l :: int where "x = of_int k" "sum_list xs = of_int l"
    unfolding is_whole_iff by auto
  then have "sum_list (x # xs) = of_int (k + l)" by simp
  then show ?case unfolding is_whole_iff ..
qed

lemma added_numbers_Some: "added_numbers (map Some vs) = added_from (Some 0) vs"
  by (simp add: added_numbers_def added_from_def foldl_map)

lemma total_is_added: 
  "totalMoneyCollected (getSellStats data) = added_from (Some 0) (map SellRecord.finalPriceCharged data)"
  by (simp add: getSellStats_def Let_def added_from_def foldl_map)

lemma keys_productMap:
  "fst ` set (fst (productMap data)) = SellRecord.name ` set data - {''__proto__''}"
proof -
  have "k \<in> fst ` set (fst (productMap data)) \<longleftrightarrow> k \<in> SellRecord.name ` set data - {''__proto__''}" for k
  proof -
    have "k \<in> fst ` set (fst (productMap data)) \<longleftrightarrow> map_of (fst (productMap data)) k \<noteq> None"
      by (simp add: map_of_eq_None_iff)
    then show ?thesis by (simp add: map_of_productMap)
  qed
  then show ?thesis by blast
qed

lemma entry_productMap:
  assumes "p \<in> set (fst (productMap data))"
  shows "ProductReportItem.name (snd p) = fst p"
    and "totalAmount (snd p) =
      added_or_zero (map SellRecord.finalPriceCharged (filter (\<lambda>s. SellRecord.name s = fst p) data))"
proof -
  have "map_of (fst (productMap data)) (fst p) = Some (snd p)"
    using assms distinct_productMap [of data] by simp
  then have e: "snd p =
      \<lparr>ProductReportItem.name = fst p,
       totalQuantity =
         added_or_zero (map SellRecord.quantity (filter (\<lambda>s. SellRecord.name s = fst p) data)),
       totalAmount =
         added_or_zero (map SellRecord.finalPriceCharged (filter (\<lambda>s. SellRecord.name s = fst p) data)),
       totalDiscount =
         added_or_zero (map SellRecord.discount (filter (\<lambda>s. SellRecord.name s = fst p) data))\<rparr>"
    by (simp add: map_of_productMap split: if_splits)
  show "ProductReportItem.name (snd p) = fst p" by (subst e) simp
  show "totalAmount (snd p) =
      added_or_zero (map SellRecord.finalPriceCharged (filter (\<lambda>s. SellRecord.name s = fst p) data))"
    by (subst e) simp
qed

lemma groups_add_up:
  assumes whole: "list_all is_whole (map SellRecord.finalPriceCharged data)"
      and bound: "sum_list (map abs (map SellRecord.finalPriceCharged data)) \<le> 9007199254740992"
      and names: "''__proto__'' \<notin> SellRecord.name ` set data"
  shows "added_numbers (map totalAmount (objectValues (fst (productMap data)))) =
    Some (sum_list (map SellRecord.finalPriceCharged data))"
proof -
  let ?f = "SellRecord.finalPriceCharged"
  let ?m = "fst (productMap data)"
  let ?K = "map fst ?m"
  define G where "G k = sum_list (map ?f (filter (\<lambda>s. SellRecord.name s = k) data))" for k
  define A where "A k = sum_list (map (\<lambda>s. \<bar>?f s\<bar>) (filter (\<lambda>s. SellRecord.name s = k) data))" for k
  define vs where "vs = map (\<lambda>it. G (ProductReportItem.name it)) (objectValues ?m)"
  have dK: "distinct ?K" by (rule distinct_productMap)
  have sK: "SellRecord.name ` set data \<subseteq> set ?K" using keys_productMap [of data] names by auto
  have GA: "\<bar>G k\<bar> \<le> A k" for k
    unfolding G_def A_def using sum_list_abs [of "map ?f (filter (\<lambda>s. SellRecord.name s = k) data)"]
    by (simp add: o_def)
  have Ab: "A k \<le> 9007199254740992" for k
  proof -
    have "A k = sum_list (map abs (map ?f (filter (\<lambda>s. SellRecord.name s = k) data)))"
      by (simp add: A_def o_def)
    also have "\<dots> \<le> sum_list (map abs (map ?f data))" by (rule abs_sum_filter)
    finally show ?thesis using bound by simp
  qed
  have amount: "totalAmount (snd p) = Some (G (fst p))" if "p \<in> set ?m" for p
  proof -
    have "sum_list (map abs (map ?f (filter (\<lambda>s. SellRecord.name s = fst p) data))) \<le> 9007199254740992"
      using Ab [of "fst p"] by (simp add: A_def o_def)
    then have "added_or_zero (map ?f (filter (\<lambda>s. SellRecord.name s = fst p) data)) = Some (G (fst p))"
      unfolding G_def using whole by (intro added_or_zero_whole whole_filter)
    then show ?thesis by (simp only: entry_productMap(2) [OF that])
  qed
  have item: "totalAmount it = Some (G (ProductReportItem.name it))"
    if it: "it \<in> set (objectValues ?m)" for it
  proof -
    obtain p where p: "p \<in> set ?m" "it = snd p" using it by (auto simp: set_objectValues)
    show ?thesis using amount [OF p(1)] entry_productMap(1) [OF p(1)] by (simp add: p(2))
  qed
  have amounts: "map totalAmount (objectValues ?m) = map Some vs"
    unfolding vs_def using item by (simp add: map_idI)
  have by_key: "sum_list (map (\<lambda>it. h (ProductReportItem.name it)) (objectValues ?m)) = sum_list (map h ?K)"
    for h :: "string \<Rightarrow> rat"
  proof -
    have "sum_list (map (\<lambda>it. h (ProductReportItem.name it)) (objectValues ?m)) =
        sum_list (map ((\<lambda>it. h (ProductReportItem.name it)) \<circ> snd) ?m)"
      by (rule sum_objectValues)
    also have "map ((\<lambda>it. h (ProductReportItem.name it)) \<circ> snd) ?m = map (\<lambda>p. h (fst p)) ?m"
      using entry_productMap(1) [of _ data] by (intro map_cong) simp_all
    finally show ?thesis by (simp add: o_def)
  qed
  have total: "sum_list vs = sum_list (map ?f data)"
  proof -
    have "sum_list vs = sum_list (map G ?K)" unfolding vs_def using by_key [of G] by (simp add: o_def)
    also have "\<dots> = sum_list (map ?f data)" unfolding G_def by (rule sum_groups [OF dK sK])
    finally show ?thesis .
  qed
  have small: "sum_list (map abs vs) \<le> 9007199254740992"
  proof -
    have "sum_list (map abs vs) = sum_list (map (\<lambda>k. \<bar>G k\<bar>) ?K)"
      unfolding vs_def using by_key [of "\<lambda>k. \<bar>G k\<bar>"] by (simp add: o_def)
    also have "\<dots> \<le> sum_list (map A ?K)" using GA by (intro sum_list_mono) simp
    also have "\<dots> = sum_list (map (\<lambda>s. \<bar>?f s\<bar>) data)" unfolding A_def by (rule sum_groups [OF dK sK])
    finally show ?thesis using bound by (simp add: o_def)
  qed
  have wvs: "list_all is_whole vs"
    unfolding vs_def G_def using whole by (simp add: list_all_iff is_whole_sum_list)
  have "added_numbers (map totalAmount (objectValues ?m)) = added_from (Some 0) vs"
    by (simp only: amounts added_numbers_Some)
  also have "\<dots> = Some (0 + sum_list vs)" using wvs small by (intro added_from_whole is_whole_0) simp_all
  finally show ?thesis by (simp add: total)
qed

text \<open>
  Claim C6, as amended. When the final prices of the records are whole numbers whose
  absolute values add up to at most 2^53 and no product is named \<open>__proto__\<close>, the amounts of
  the groups of the report by product, added up, are the total money collected over the
  same records, and both are the exact sum of the final prices. This holds for every list
  of records and so for the filtered list of a dashboard state.
\<close>

theorem rollup_revenue_is_total:
  assumes whole: "list_all is_whole (map SellRecord.finalPriceCharged data)"
      and bound: "sum_list (map abs (map SellRecord.finalPriceCharged data)) \<le> 9007199254740992"
      and names: "''__proto__'' \<notin> SellRecord.name ` set data"
  shows "added_numbers (map totalAmount (objectValues (fst (productMap data)))) =
           totalMoneyCollected (getSellStats data)
       \<and> totalMoneyCollected (getSellStats data) = Some (sum_list (map SellRecord.finalPriceCharged data))
       \<and> (data = filteredSells cal st \<longrightarrow>
            added_numbers (map totalAmount (aggregatedProductSales cal st)) =
              totalMoneyCollected (getSellStats (filteredSells cal st)))"
proof -
  have t: "totalMoneyCollected (getSellStats data) = Some (sum_list (map SellRecord.finalPriceCharged data))"
    using added_from_whole [OF whole is_whole_0] bound by (simp add: total_is_added)
  note g = groups_add_up [OF assms]
  show ?thesis using t g by (auto simp: aggregatedProductSales_def)
qed

theorem rollup_revenue_is_total_witness:
  "list_all is_whole (map SellRecord.finalPriceCharged whole_sales)
   \<and> sum_list (map abs (map SellRecord.finalPriceCharged whole_sales)) \<le> 9007199254740992
   \<and> ''__proto__'' \<notin> SellRecord.name ` set whole_sales
   \<and> added_numbers (map totalAmount (objectValues (fst (productMap whole_sales)))) =
       totalMoneyCollected (getSellStats whole_sales)
   \<and> totalMoneyCollected (getSellStats whole_sales) = Some 1950"
proof -
  have h1: "list_all is_whole (map SellRecord.finalPriceCharged whole_sales)" by code_simp
  have h2: "sum_list (map abs (map SellRecord.finalPriceCharged whole_sales)) \<le> 9007199254740992"
    by code_simp
  have h3: "''__proto__'' \<notin> SellRecord.name ` set whole_sales" by code_simp
  have v: "sum_list (map SellRecord.finalPriceCharged whole_sales) = 1950" by code_simp
  note t = rollup_revenue_is_total [OF h1 h2 h3, unfolded v]
  show ?thesis
    by (intro conjI) (rule h1 h2 h3 t [THEN conjunct1] t [THEN conjunct2, THEN conjunct1])+
qed

text \<open>
  Claim C6 as stated fails for amounts that are not whole. For four sales with final
  prices 0.1, 0.2, 0.3 and 0.7, of products A, B, A and B, the amounts of the two groups
  are the doubles 0.4 and 0.8999999999999999; added up they give 1.2999999999999998 in
  double arithmetic, and no more than one unit in the last place above that exactly,
  while the total money collected is the double 1.3.
\<close>

theorem rollup_revenue_rounding_counterexample:
  "map totalAmount (objectValues (fst (productMap fractional_sales))) =
     [Some (3602879701896397 / 9007199254740992), Some (2026619832316723 / 2251799813685248)]
   \<and> added_numbers (map totalAmount (objectValues (fst (productMap fractional_sales)))) =
       Some (1463669878895411 / 1125899906842624)
   \<and> totalMoneyCollected (getSellStats fractional_sales) = Some (5854679515581645 / 4503599627370496)
   \<and> (1463669878895411 / 1125899906842624 :: rat) \<noteq> 5854679515581645 / 4503599627370496
   \<and> (3602879701896397 / 9007199254740992 + 2026619832316723 / 2251799813685248 :: rat) \<noteq>
       5854679515581645 / 4503599627370496"
  by code_simp

subsection \<open>The chart\<close>









end
